theory Spec2Isabelle
  imports Complex_Main
begin

section \<open>NumPy values\<close>

text \<open>
  The arrays of \<^verbatim>\<open>LiCSAlert_functions.py\<close> hold IEEE doubles. A finite double is
  modelled as a real number (rounding and overflow are not modelled); the values NaN and
  the two infinities are kept apart, because the code creates them on purpose
  (\<^verbatim>\<open>np.nan * np.ones(...)\<close>) and by dividing by zero. Signed zeros are not
  distinguished: a division of a nonzero number by zero takes the sign of the numerator.
\<close>

datatype npfloat = Fin real | PInf | NInf | NaN

fun np_neg :: "npfloat \<Rightarrow> npfloat" where
  "np_neg (Fin a) = Fin (- a)"
| "np_neg PInf = NInf"
| "np_neg NInf = PInf"
| "np_neg NaN = NaN"

fun np_add :: "npfloat \<Rightarrow> npfloat \<Rightarrow> npfloat" where
  "np_add (Fin a) (Fin b) = Fin (a + b)"
| "np_add NaN _ = NaN"
| "np_add _ NaN = NaN"
| "np_add PInf NInf = NaN"
| "np_add NInf PInf = NaN"
| "np_add PInf _ = PInf"
| "np_add _ PInf = PInf"
| "np_add NInf _ = NInf"
| "np_add _ NInf = NInf"

definition np_sub :: "npfloat \<Rightarrow> npfloat \<Rightarrow> npfloat" where
  "np_sub a b = np_add a (np_neg b)"

fun np_mul :: "npfloat \<Rightarrow> npfloat \<Rightarrow> npfloat" where
  "np_mul (Fin a) (Fin b) = Fin (a * b)"
| "np_mul NaN _ = NaN"
| "np_mul _ NaN = NaN"
| "np_mul (Fin a) PInf = (if a = 0 then NaN else if 0 < a then PInf else NInf)"
| "np_mul (Fin a) NInf = (if a = 0 then NaN else if 0 < a then NInf else PInf)"
| "np_mul PInf (Fin b) = (if b = 0 then NaN else if 0 < b then PInf else NInf)"
| "np_mul NInf (Fin b) = (if b = 0 then NaN else if 0 < b then NInf else PInf)"
| "np_mul PInf PInf = PInf"
| "np_mul NInf NInf = PInf"
| "np_mul PInf NInf = NInf"
| "np_mul NInf PInf = NInf"

fun np_div :: "npfloat \<Rightarrow> npfloat \<Rightarrow> npfloat" where
  "np_div (Fin a) (Fin b) =
     (if b \<noteq> 0 then Fin (a / b)
      else if a = 0 then NaN
      else if 0 < a then PInf else NInf)"
| "np_div NaN _ = NaN"
| "np_div _ NaN = NaN"
| "np_div (Fin a) _ = Fin 0"
| "np_div PInf (Fin b) = (if 0 \<le> b then PInf else NInf)"
| "np_div NInf (Fin b) = (if 0 \<le> b then NInf else PInf)"
| "np_div _ _ = NaN"

fun np_abs :: "npfloat \<Rightarrow> npfloat" where
  "np_abs (Fin a) = Fin \<bar>a\<bar>"
| "np_abs PInf = PInf"
| "np_abs NInf = PInf"
| "np_abs NaN = NaN"

text \<open>\<^verbatim>\<open>np.mean\<close> of a slice: NaN (with a warning, no exception) when the slice is
  empty.\<close>

definition np_mean :: "real list \<Rightarrow> npfloat" where
  "np_mean xs = (if xs = [] then NaN else Fin (sum_list xs / real (length xs)))"

text \<open>The mean and the population standard deviation (\<^verbatim>\<open>np.std\<close>, ddof = 0) of
  an array that is not empty where they are called; the one exception is the mean of line
  777 for an array without entries, which is subtracted from no entry.\<close>

definition mean :: "real list \<Rightarrow> real" where
  "mean xs = sum_list xs / real (length xs)"

definition np_std :: "real list \<Rightarrow> real" where
  "np_std xs = sqrt (mean (map (\<lambda>x. \<bar>x - mean xs\<bar> ^ 2) xs))"

section \<open>Exceptions, slices and slice assignment\<close>

datatype error = IndexError | ValueError | TypeError | LinAlgError

text \<open>A bound of a Python slice \<^verbatim>\<open>a[i:j]\<close> on a sequence of the given length:
  a negative bound counts from the end, and every bound is clipped to the sequence.\<close>

definition slice_index :: "nat \<Rightarrow> int \<Rightarrow> nat" where
  "slice_index len i = (if i < 0 then nat (int len + i) else min len (nat i))"

definition py_slice :: "int \<Rightarrow> int \<Rightarrow> 'a list \<Rightarrow> 'a list" where
  "py_slice i j xs =
     (let a = slice_index (length xs) i; b = slice_index (length xs) j
      in take (b - a) (drop a xs))"

text \<open>A two-dimensional array is the list of its rows. \<^verbatim>\<open>M[i:j, col] = vals\<close>
  writes \<open>vals\<close> down column \<open>col\<close> over the rows of the slice. NumPy raises IndexError
  when the column does not exist, and ValueError when \<open>vals\<close> has neither the length of
  the slice nor length one (a single value is broadcast).\<close>

definition ncols :: "'a list list \<Rightarrow> nat" where
  "ncols M = (case M of [] \<Rightarrow> 0 | r # _ \<Rightarrow> length r)"

definition assign_col_slice ::
  "int \<Rightarrow> int \<Rightarrow> nat \<Rightarrow> 'a list \<Rightarrow> 'a list list \<Rightarrow> error + 'a list list" where
  "assign_col_slice i j col vals M =
     (let a = slice_index (length M) i; b = slice_index (length M) j
      in if ncols M \<le> col then Inl IndexError
         else if length vals = b - a then
           Inr (map (\<lambda>r. if a \<le> r \<and> r < b then (M ! r)[col := vals ! (r - a)] else M ! r)
                  [0..<length M])
         else if length vals = 1 then
           Inr (map (\<lambda>r. if a \<le> r \<and> r < b then (M ! r)[col := vals ! 0] else M ! r)
                  [0..<length M])
         else Inl ValueError)"

text \<open>Running a fallible step over a list, stopping at the first exception.\<close>

fun collect :: "('a \<Rightarrow> error + 'b) \<Rightarrow> 'a list \<Rightarrow> error + 'b list" where
  "collect f [] = Inr []"
| "collect f (x # xs) =
     (case f x of
        Inl e \<Rightarrow> Inl e
      | Inr y \<Rightarrow> (case collect f xs of Inl e \<Rightarrow> Inl e | Inr ys \<Rightarrow> Inr (y # ys)))"

section \<open>The trend state\<close>

text \<open>One dictionary per time course, as \<^verbatim>\<open>tcs_baseline\<close> builds it. The column
  vectors (n x 1 arrays) \<^verbatim>\<open>cumulative_tc\<close> and \<^verbatim>\<open>distances\<close> are lists, the
  square array \<^verbatim>\<open>lines\<close> is the list of its rows, indexed
  \<open>lines ! time_step ! line_id\<close>.\<close>

record tc_dict =
  cumulative_tc :: "real list"
  gradient :: real
  lines :: "npfloat list list"
  sigma :: real
  distances :: "npfloat list"
  t_recalculate :: int

section \<open>The Trend Tracker: \<^verbatim>\<open>tcs_baseline\<close>\<close>

text \<open>
  \<^verbatim>\<open>np.polyfit(x, y, 1)\<close> is NumPy's, not the repository's. It raises TypeError on an
  empty \<open>x\<close> and when \<open>x\<close> and \<open>y\<close> differ in length; otherwise it solves the
  least-squares problem for gradient and intercept. When the time values are not all
  equal that is the ordinary least-squares line. When they are all equal the problem is
  rank-deficient: NumPy scales the two columns of the design matrix to unit length and
  returns the minimum-norm solution of the scaled problem (with a RankWarning), which is
  gradient \<open>mean y / (2 c)\<close> and intercept \<open>mean y / 2\<close> for the common time value
  \<open>c \<noteq> 0\<close>; for \<open>c = 0\<close> the scaling divides by zero and the solver rejects the
  resulting NaNs with LinAlgError.

  The numbers are reals, and the function below is the exact solution. NumPy's solver
  returns it up to rounding: for points that lie on a line it leaves residues of the
  order of the machine precision, so the sigma it leads to is in general a small number
  and not 0 there. A time course of zeros is fitted without rounding (the solution of
  a zero right-hand side is zero). Statements about a sigma of exactly 0 are therefore
  made from the stored sigma, not from the position of the points.
\<close>

definition polyfit1 :: "real list \<Rightarrow> real list \<Rightarrow> error + real \<times> real" where
  "polyfit1 x y =
     (if x = [] \<or> length x \<noteq> length y then Inl TypeError
      else
        let xm = mean x; ym = mean y;
            sxx = sum_list (map (\<lambda>a. (a - xm) ^ 2) x);
            sxy = sum_list (map (\<lambda>(a, b). (a - xm) * (b - ym)) (zip x y))
        in if sxx \<noteq> 0 then Inr (sxy / sxx, ym - (sxy / sxx) * xm)
           else if xm = 0 then Inl LinAlgError
           else Inr (ym / (2 * xm), ym / 2))"

text \<open>\<^verbatim>\<open>np.polyval((gradient, y_intercept), x)\<close> evaluates the line at every \<open>x\<close>
  (Horner's rule; the intercept is an array of one element, which the NumPy of the
  code's date accepts in the coefficient tuple).\<close>

definition polyval1 :: "real \<Rightarrow> real \<Rightarrow> real list \<Rightarrow> real list" where
  "polyval1 g c xs = map (\<lambda>x. g * x + c) xs"

text \<open>The loop over the time steps that copies the line into the banded matrix
  (lines 162 to 166): the window of time step \<open>time_step\<close> starts
  \<open>t_recalculate - 1\<close> steps earlier, clamped at 0.\<close>

fun baseline_lines ::
  "int \<Rightarrow> real list \<Rightarrow> nat list \<Rightarrow> npfloat list list \<Rightarrow> error + npfloat list list" where
  "baseline_lines t line_yvals [] lines_yvals = Inr lines_yvals"
| "baseline_lines t line_yvals (time_step # rest) lines_yvals =
     (let start_time = int time_step - (t - 1);
          start_time = (if start_time < 0 then 0 else start_time)
      in case assign_col_slice start_time (int time_step + 1) time_step
                (map Fin (py_slice start_time (int time_step + 1) line_yvals)) lines_yvals of
           Inl e \<Rightarrow> Inl e
         | Inr lines_yvals' \<Rightarrow> baseline_lines t line_yvals rest lines_yvals')"

text \<open>Line 170: the time course minus the line, two columns of the same length (the
  fit has checked it).\<close>

definition line_point_distances :: "real list \<Rightarrow> real list \<Rightarrow> real list" where
  "line_point_distances tc line_yvals = map (\<lambda>(y, l). y - l) (zip tc line_yvals)"

text \<open>The body of the loop over the time courses, for one column \<open>tc\<close> of
  \<^verbatim>\<open>tcs_c\<close>.\<close>

definition tc_baseline :: "nat \<Rightarrow> real list \<Rightarrow> real list \<Rightarrow> int \<Rightarrow> error + tc_dict" where
  "tc_baseline n_times tc time_values t =
     (case polyfit1 time_values tc of
        Inl e \<Rightarrow> Inl e
      | Inr (g, y_intercept) \<Rightarrow>
          (let line_yvals = polyval1 g y_intercept time_values
           in case baseline_lines t line_yvals [0..<n_times]
                     (replicate n_times (replicate n_times NaN)) of
                Inl e \<Rightarrow> Inl e
              | Inr lines_yvals \<Rightarrow>
                  (let lpd = line_point_distances tc line_yvals;
                       sg = np_std lpd
                   in Inr \<lparr> cumulative_tc = tc,
                            gradient = g,
                            lines = lines_yvals,
                            sigma = sg,
                            distances = map (\<lambda>d. np_abs (np_div (Fin d) (Fin sg))) lpd,
                            t_recalculate = t \<rparr>)))"

text \<open>\<^verbatim>\<open>tcs_c\<close> is an array of shape (n_times, n_tcs) with the time courses as its
  columns; it is modelled as the list of its columns, so \<open>tcs_c ! n\<close> is
  \<^verbatim>\<open>tcs_c[:, n]\<close> and \<^verbatim>\<open>tcs_c.shape[0]\<close> is the common length of the columns.
  For an array without columns the number of rows is not represented; no result depends
  on it: \<^verbatim>\<open>tcs_baseline\<close> returns the empty list, and \<^verbatim>\<open>tcs_monitoring\<close>
  raises IndexError at its first column access.\<close>

definition shape0 :: "real list list \<Rightarrow> nat" where
  "shape0 tcs_c = (case tcs_c of [] \<Rightarrow> 0 | c # _ \<Rightarrow> length c)"

definition tcs_baseline :: "real list list \<Rightarrow> real list \<Rightarrow> int \<Rightarrow> error + tc_dict list" where
  "tcs_baseline tcs_c time_values t =
     collect (\<lambda>tc. tc_baseline (shape0 tcs_c) tc time_values t) tcs_c"

section \<open>The Monitoring Extender: \<^verbatim>\<open>tcs_monitoring\<close>\<close>

text \<open>
  The function writes to two objects: the caller's array \<^verbatim>\<open>tcs_c\<close> (the
  \<^verbatim>\<open>+=\<close> of line 217 is in place) and the deep copy
  \<^verbatim>\<open>sources_tcs_monitor\<close> of the caller's list of dictionaries. The memory holds
  both, and the caller's list itself, so that every statement's write goes to the object
  the source writes to.
\<close>

record memory =
  m_tcs_c :: "real list list"
  m_sources_tcs :: "tc_dict list"
  m_sources_tcs_monitor :: "tc_dict list"

text \<open>
  The caller's list and the caller's array need not be disjoint.
  \<^verbatim>\<open>tcs_baseline\<close> stores in each dictionary a view of a column of its array
  (line 153, \<^verbatim>\<open>tcs_c[:, n_tc:n_tc+1]\<close>, no copy), so a dictionary of the caller
  can share its memory with a column of the array that is passed to
  \<^verbatim>\<open>tcs_monitoring\<close>. The sharing is an input of the call:
  \<open>view_of n = Some j\<close> says that \<^verbatim>\<open>cumulative_tc\<close> of the caller's dictionary
  \<open>n\<close> is a view of column \<open>j\<close> of \<^verbatim>\<open>tcs_c\<close>, and \<open>view_of n = None\<close>
  that it has memory of its own or views another array. Only views of a whole column
  are represented, which is what \<^verbatim>\<open>tcs_baseline\<close> makes. The deep copy of line 203
  copies the values that a view shows into new arrays, so the dictionaries of
  \<^verbatim>\<open>sources_tcs_monitor\<close> view nothing of the caller's.

  A write to column \<open>j\<close> of \<^verbatim>\<open>tcs_c\<close> is at the same time a write to every
  dictionary that views the column; \<open>old\<close> is the column before the write and
  \<open>new\<close> the column after it. A view shows the values of what it views, so a
  dictionary that does not hold the column's values is no view of it, whatever
  \<open>view_of\<close> says.
\<close>

definition write_views ::
  "(nat \<rightharpoonup> nat) \<Rightarrow> nat \<Rightarrow> real list \<Rightarrow> real list \<Rightarrow> tc_dict list \<Rightarrow> tc_dict list" where
  "write_views view_of j old new ds =
     map (\<lambda>n. if view_of n = Some j \<and> cumulative_tc (ds ! n) = old
              then (ds ! n)\<lparr> cumulative_tc := new \<rparr>
              else ds ! n) [0..<length ds]"

text \<open>\<^verbatim>\<open>np.pad\<close> at the bottom and the right with a constant; a negative pad
  width raises ValueError.\<close>

definition pad_lines :: "int \<Rightarrow> npfloat list list \<Rightarrow> error + npfloat list list" where
  "pad_lines k M =
     (if k < 0 then Inl ValueError
      else Inr (map (\<lambda>r. r @ replicate (nat k) NaN) M
                @ replicate (nat k) (replicate (ncols M + nat k) NaN)))"

definition pad_distances :: "int \<Rightarrow> npfloat list \<Rightarrow> error + npfloat list" where
  "pad_distances k ds =
     (if k < 0 then Inl ValueError else Inr (ds @ replicate (nat k) (Fin 0)))"

text \<open>Lines 216 to 220. Per-source mode adds the last baseline value to column
  \<open>source_n\<close> of the caller's \<^verbatim>\<open>tcs_c\<close> in place and appends that column;
  residual mode takes the column as the whole series. The result is the array
  \<^verbatim>\<open>tcs_c\<close> after the statement and the new cumulative time course.\<close>

definition update_cumulative ::
  "bool \<Rightarrow> nat \<Rightarrow> tc_dict \<Rightarrow> real list list \<Rightarrow> error + real list list \<times> real list" where
  "update_cumulative residual source_n source_tc tcs_c =
     (if length tcs_c \<le> source_n then Inl IndexError
      else if \<not> residual then
        (if cumulative_tc source_tc = [] then Inl IndexError
         else
           let col = map (\<lambda>v. v + last (cumulative_tc source_tc)) (tcs_c ! source_n)
           in Inr (tcs_c[source_n := col], cumulative_tc source_tc @ col))
      else Inr (tcs_c, tcs_c ! source_n))"

text \<open>Lines 226 and 227: the intercept of the rolling line for interferogram
  \<open>n_ifg\<close>, from the means over the slice \<^verbatim>\<open>[n_ifg-t_recalculate : n_ifg]\<close>,
  and the values of the line over \<^verbatim>\<open>[n_ifg-t_recalculate : n_ifg+1]\<close>. A negative
  \<open>n_ifg - t_recalculate\<close> is a Python slice bound that counts from the end.\<close>

definition line_y_intercept :: "int \<Rightarrow> real list \<Rightarrow> tc_dict \<Rightarrow> nat \<Rightarrow> npfloat" where
  "line_y_intercept t time_values source_tc n_ifg =
     np_sub (np_mean (py_slice (int n_ifg - t) (int n_ifg) (cumulative_tc source_tc)))
            (np_mul (Fin (gradient source_tc))
                    (np_mean (py_slice (int n_ifg - t) (int n_ifg) time_values)))"

definition line_yvals :: "int \<Rightarrow> real list \<Rightarrow> tc_dict \<Rightarrow> nat \<Rightarrow> npfloat list" where
  "line_yvals t time_values source_tc n_ifg =
     map (\<lambda>tv. np_add (np_mul (Fin tv) (Fin (gradient source_tc)))
                       (line_y_intercept t time_values source_tc n_ifg))
         (py_slice (int n_ifg - t) (int n_ifg + 1) time_values)"

text \<open>The loop over the monitoring interferograms (lines 225 to 229), on the
  dictionary of one source. Line 229 raises IndexError when \<open>n_ifg\<close> is not a row of
  the time course or of the distances, and when \<^verbatim>\<open>line_yvals\<close> is empty.\<close>

fun monitoring_loop :: "int \<Rightarrow> real list \<Rightarrow> nat list \<Rightarrow> tc_dict \<Rightarrow> error + tc_dict" where
  "monitoring_loop t time_values [] source_tc = Inr source_tc"
| "monitoring_loop t time_values (n_ifg # rest) source_tc =
     (case assign_col_slice (int n_ifg - t) (int n_ifg + 1) n_ifg
             (line_yvals t time_values source_tc n_ifg) (lines source_tc) of
        Inl e \<Rightarrow> Inl e
      | Inr lines' \<Rightarrow>
          (if length (cumulative_tc source_tc) \<le> n_ifg
              \<or> line_yvals t time_values source_tc n_ifg = []
              \<or> length (distances source_tc) \<le> n_ifg
           then Inl IndexError
           else monitoring_loop t time_values rest
                  (source_tc\<lparr> lines := lines',
                     distances := (distances source_tc)
                       [n_ifg := np_div
                          (np_abs (np_sub (Fin (cumulative_tc source_tc ! n_ifg))
                                          (last (line_yvals t time_values source_tc n_ifg))))
                          (Fin (sigma source_tc))] \<rparr>)))"

text \<open>The body of the loop over the sources (lines 215 to 229), for source
  \<open>source_n\<close>: the dictionary is read from the copy and written back to it. The
  write of line 217 to column \<open>source_n\<close> of \<^verbatim>\<open>tcs_c\<close> reaches the caller's
  dictionaries that view the column.\<close>

definition monitor_source ::
  "(nat \<rightharpoonup> nat) \<Rightarrow> bool \<Rightarrow> int \<Rightarrow> nat \<Rightarrow> int \<Rightarrow> real list \<Rightarrow> nat \<Rightarrow> memory
     \<Rightarrow> error + memory" where
  "monitor_source view_of residual t n_times_baseline n_times_monitor time_values source_n mem =
     (let source_tc = m_sources_tcs_monitor mem ! source_n
      in case update_cumulative residual source_n source_tc (m_tcs_c mem) of
           Inl e \<Rightarrow> Inl e
         | Inr (tcs_c', cum) \<Rightarrow>
             (case pad_lines n_times_monitor (lines source_tc) of
                Inl e \<Rightarrow> Inl e
              | Inr lines' \<Rightarrow>
                  (case pad_distances n_times_monitor (distances source_tc) of
                     Inl e \<Rightarrow> Inl e
                   | Inr distances' \<Rightarrow>
                       (case monitoring_loop t time_values
                               [n_times_baseline ..< nat (int n_times_baseline + n_times_monitor)]
                               (source_tc\<lparr> cumulative_tc := cum, lines := lines',
                                  distances := distances' \<rparr>) of
                          Inl e \<Rightarrow> Inl e
                        | Inr source_tc' \<Rightarrow>
                            Inr (mem\<lparr> m_tcs_c := tcs_c',
                                   m_sources_tcs :=
                                     write_views view_of source_n
                                       (m_tcs_c mem ! source_n) (tcs_c' ! source_n)
                                       (m_sources_tcs mem),
                                   m_sources_tcs_monitor :=
                                     (m_sources_tcs_monitor mem)[source_n := source_tc'] \<rparr>)))))"

fun monitor_sources ::
  "(nat \<rightharpoonup> nat) \<Rightarrow> bool \<Rightarrow> int \<Rightarrow> nat \<Rightarrow> int \<Rightarrow> real list \<Rightarrow> nat list \<Rightarrow> memory
     \<Rightarrow> error + memory" where
  "monitor_sources view_of residual t nb nm time_values [] mem = Inr mem"
| "monitor_sources view_of residual t nb nm time_values (source_n # rest) mem =
     (case monitor_source view_of residual t nb nm time_values source_n mem of
        Inl e \<Rightarrow> Inl e
      | Inr mem' \<Rightarrow> monitor_sources view_of residual t nb nm time_values rest mem')"

text \<open>What the caller has after the call: the returned list, and the contents of the
  two objects it passed in, the list as its dictionaries show it then (a view shows
  what was written to the column it views).\<close>

record mon_result =
  returned :: "tc_dict list"
  tcs_c_after :: "real list list"
  sources_tcs_after :: "tc_dict list"

text \<open>Lines 204 to 211: the number of monitoring steps. In residual mode
  \<^verbatim>\<open>tcs_c\<close> is the whole series, so the baseline steps are taken off.\<close>

definition n_times_monitor :: "real list list \<Rightarrow> tc_dict list \<Rightarrow> bool \<Rightarrow> int" where
  "n_times_monitor tcs_c sources_tcs residual =
     (let n_times_baseline = length (cumulative_tc (sources_tcs ! 0));
          n_times_tc = shape0 tcs_c
      in if residual then int n_times_tc - int n_times_baseline else int n_times_tc)"

definition tcs_monitoring ::
  "(nat \<rightharpoonup> nat) \<Rightarrow> real list list \<Rightarrow> tc_dict list \<Rightarrow> real list \<Rightarrow> bool
     \<Rightarrow> error + mon_result" where
  "tcs_monitoring view_of tcs_c sources_tcs time_values residual =
     (let mem = \<lparr> m_tcs_c = tcs_c, m_sources_tcs = sources_tcs,
                   m_sources_tcs_monitor = sources_tcs \<rparr>
      in if m_sources_tcs_monitor mem = [] then Inl IndexError
         else
           (case monitor_sources view_of residual
                   (t_recalculate (m_sources_tcs_monitor mem ! 0))
                   (length (cumulative_tc (m_sources_tcs_monitor mem ! 0)))
                   (n_times_monitor tcs_c (m_sources_tcs_monitor mem) residual)
                   time_values [0..<length (m_sources_tcs_monitor mem)] mem of
              Inl e \<Rightarrow> Inl e
            | Inr mem' \<Rightarrow>
                Inr \<lparr> returned = m_sources_tcs_monitor mem',
                      tcs_c_after = m_tcs_c mem',
                      sources_tcs_after = m_sources_tcs mem' \<rparr>))"

section \<open>Two-dimensional arrays with their shape\<close>

text \<open>
  The Decomposer multiplies and transposes arrays, and NumPy decides from the shapes
  whether that is an error. There an array is a record of its shape and its rows, so
  that an array with no rows still has a number of columns.
\<close>

record array2 =
  dim0 :: nat
  dim1 :: nat
  rows :: "real list list"

definition arr :: "nat \<Rightarrow> nat \<Rightarrow> (nat \<Rightarrow> nat \<Rightarrow> real) \<Rightarrow> array2" where
  "arr n m f = \<lparr> dim0 = n, dim1 = m, rows = map (\<lambda>i. map (f i) [0..<m]) [0..<n] \<rparr>"

definition entry :: "array2 \<Rightarrow> nat \<Rightarrow> nat \<Rightarrow> real" where
  "entry A i j = rows A ! i ! j"

definition transpose_a :: "array2 \<Rightarrow> array2" where
  "transpose_a A = arr (dim1 A) (dim0 A) (\<lambda>i j. entry A j i)"

text \<open>\<^verbatim>\<open>A @ B\<close>: ValueError unless the inner dimensions agree.\<close>

definition matmul :: "array2 \<Rightarrow> array2 \<Rightarrow> error + array2" where
  "matmul A B =
     (if dim1 A \<noteq> dim0 B then Inl ValueError
      else Inr (arr (dim0 A) (dim1 B)
                  (\<lambda>i j. sum_list (map (\<lambda>l. entry A i l * entry B l j) [0..<dim1 A]))))"

text \<open>\<^verbatim>\<open>A - B\<close> with NumPy's broadcasting: along each axis the two lengths are
  equal, or one of them is 1 and that array is repeated.\<close>

definition broadcast_dim :: "nat \<Rightarrow> nat \<Rightarrow> nat option" where
  "broadcast_dim a b =
     (if a = b then Some a else if a = 1 then Some b else if b = 1 then Some a else None)"

definition sub_a :: "array2 \<Rightarrow> array2 \<Rightarrow> error + array2" where
  "sub_a A B =
     (case (broadcast_dim (dim0 A) (dim0 B), broadcast_dim (dim1 A) (dim1 B)) of
        (Some n, Some m) \<Rightarrow>
          Inr (arr n m (\<lambda>i j.
                 entry A (if dim0 A = 1 then 0 else i) (if dim1 A = 1 then 0 else j)
                 - entry B (if dim0 B = 1 then 0 else i) (if dim1 B = 1 then 0 else j)))
      | _ \<Rightarrow> Inl ValueError)"

text \<open>\<^verbatim>\<open>np.cumsum(A, axis=0)\<close>: the running sum down every column.\<close>

definition cumsum0 :: "array2 \<Rightarrow> array2" where
  "cumsum0 A = arr (dim0 A) (dim1 A) (\<lambda>i j. sum_list (map (\<lambda>l. entry A l j) [0..<Suc i]))"

fun np_cumsum_from :: "npfloat \<Rightarrow> npfloat list \<Rightarrow> npfloat list" where
  "np_cumsum_from acc [] = []"
| "np_cumsum_from acc (x # xs) = np_add acc x # np_cumsum_from (np_add acc x) xs"

definition np_cumsum :: "npfloat list \<Rightarrow> npfloat list" where
  "np_cumsum xs = (case xs of [] \<Rightarrow> [] | x # rest \<Rightarrow> x # np_cumsum_from x rest)"

text \<open>\<^verbatim>\<open>np.vstack((A, B))\<close>: ValueError unless the rows have the same length.\<close>

definition vstack :: "array2 \<Rightarrow> array2 \<Rightarrow> error + array2" where
  "vstack A B =
     (if dim1 A \<noteq> dim1 B then Inl ValueError
      else Inr \<lparr> dim0 = dim0 A + dim0 B, dim1 = dim1 A, rows = rows A @ rows B \<rparr>)"

text \<open>The columns of an array, as \<^verbatim>\<open>tcs_baseline\<close> and
  \<^verbatim>\<open>tcs_monitoring\<close> take their \<^verbatim>\<open>tcs_c\<close>.\<close>

definition columns :: "array2 \<Rightarrow> real list list" where
  "columns A = rows (transpose_a A)"

text \<open>Sequencing of fallible steps: the first exception ends the computation.\<close>

definition ebind :: "error + 'a \<Rightarrow> ('a \<Rightarrow> error + 'b) \<Rightarrow> error + 'b" where
  "ebind x f = (case x of Inl e \<Rightarrow> Inl e | Inr v \<Rightarrow> f v)"

section \<open>The Decomposer: \<^verbatim>\<open>bss_components_inversion\<close>\<close>

text \<open>
  \<^verbatim>\<open>np.linalg.inv\<close> is NumPy's; it is the parameter \<open>linalg_inv\<close>, which returns the
  inverse or raises LinAlgError. Line 777 subtracts the mean of all entries from the
  caller's array in place, so the result records the contents of that array after the
  call next to the two values returned. The residual of line 789 divides by the number
  of pixels, which is NaN for an array without pixels.
\<close>

definition mean_centre :: "array2 \<Rightarrow> array2" where
  "mean_centre A = arr (dim0 A) (dim1 A) (\<lambda>i j. entry A i j - mean (concat (rows A)))"

record bss_result =
  b_m :: array2
  b_residual :: "npfloat list"
  b_interferograms :: array2

definition bss_components_inversion ::
  "(array2 \<Rightarrow> error + array2) \<Rightarrow> array2 \<Rightarrow> array2 \<Rightarrow> bool \<Rightarrow> error + bss_result" where
  "bss_components_inversion linalg_inv sources interferograms cumulative =
     (let interferograms' = mean_centre interferograms;
          n_ifgs = dim0 interferograms';
          n_pixels = dim1 interferograms';
          d = transpose_a interferograms';
          g = transpose_a sources
      in ebind (matmul (transpose_a g) g) (\<lambda>gtg.
         ebind (linalg_inv gtg) (\<lambda>gtg_inv.
         ebind (matmul gtg_inv (transpose_a g)) (\<lambda>gtg_inv_gt.
         ebind (matmul gtg_inv_gt d) (\<lambda>m.
         ebind (matmul g m) (\<lambda>d_hat.
         ebind (sub_a d d_hat) (\<lambda>d_resid.
           let m' = transpose_a m;
               residual =
                 map (\<lambda>i. np_div
                        (Fin (sqrt (sum_list (map (\<lambda>q. (entry d_resid q i) ^ 2)
                                                  [0..<dim0 d_resid]))))
                        (Fin (real n_pixels)))
                     [0..<n_ifgs]
           in Inr \<lparr> b_m = (if cumulative then cumsum0 m' else m'),
                    b_residual = (if cumulative then np_cumsum residual else residual),
                    b_interferograms = interferograms' \<rparr>)))))))"

section \<open>The Residual Pipeline: \<^verbatim>\<open>residual_for_pixels\<close>\<close>

text \<open>\<^verbatim>\<open>list_dict_to_r2\<close>: the incremental time courses, as the columns of an
  array with as many rows as the first time course. Line 107 writes each one into its
  column, which is a ValueError when its length is neither that number of rows nor 1.\<close>

fun diff_from :: "real \<Rightarrow> real list \<Rightarrow> real list" where
  "diff_from prev [] = []"
| "diff_from prev (x # xs) = (x - prev) # diff_from x xs"

definition list_dict_to_r2 :: "tc_dict list \<Rightarrow> error + array2" where
  "list_dict_to_r2 sources_tcs =
     (if sources_tcs = [] then Inl IndexError
      else
        let n_sources = length sources_tcs;
            n_ifgs = length (cumulative_tc (sources_tcs ! 0))
        in if \<exists>source_tc \<in> set sources_tcs.
                length (cumulative_tc source_tc) \<noteq> n_ifgs
                \<and> length (cumulative_tc source_tc) \<noteq> 1
           then Inl ValueError
           else Inr (arr n_ifgs n_sources
                       (\<lambda>i n. let tc = diff_from 0 (cumulative_tc (sources_tcs ! n))
                              in if length tc = n_ifgs then tc ! i else tc ! 0)))"

text \<open>The root mean square of line 121 and 122 divides the sum of squares of a row by
  the number of pixels of the sources; without pixels NumPy's result is NaN.\<close>

definition rms_row :: "nat \<Rightarrow> real list \<Rightarrow> npfloat" where
  "rms_row n_pixs row =
     (case np_div (Fin (sum_list (map (\<lambda>x. x ^ 2) row))) (Fin (real n_pixs)) of
        Fin v \<Rightarrow> Fin (sqrt v)
      | PInf \<Rightarrow> PInf
      | _ \<Rightarrow> NaN)"

definition residual_for_pixels ::
  "array2 \<Rightarrow> tc_dict list \<Rightarrow> array2 \<Rightarrow> int option \<Rightarrow> error + npfloat list \<times> npfloat list" where
  "residual_for_pixels sources sources_tcs ifgs n_skip =
     (let n_sources = dim0 sources; n_pixs = dim1 sources
      in ebind (list_dict_to_r2 sources_tcs) (\<lambda>tcs.
         let tcs = (case n_skip of
                      None \<Rightarrow> tcs
                    | Some k \<Rightarrow>
                        \<lparr> dim0 = dim0 tcs - slice_index (dim0 tcs) k, dim1 = dim1 tcs,
                          rows = drop (slice_index (dim0 tcs) k) (rows tcs) \<rparr>)
         in ebind (matmul tcs sources) (\<lambda>model.
            ebind (sub_a ifgs model) (\<lambda>data_model_residual.
              let data_model_residual_cs = cumsum0 data_model_residual
              in Inr (map (rms_row n_pixs) (rows data_model_residual),
                      map (rms_row n_pixs) (rows data_model_residual_cs))))))"

section \<open>The Orchestrator: \<^verbatim>\<open>LiCSAlert\<close>\<close>

text \<open>The cumulative residual is NaN or infinite only when the sources have no
  pixels. The baseline column goes on to \<^verbatim>\<open>np.polyfit\<close>, whose solver rejects such
  a value with LinAlgError; the full-span column is computed with the same number of
  pixels, so it is finite whenever the baseline column was.\<close>

fun finite_column :: "npfloat list \<Rightarrow> error + real list" where
  "finite_column [] = Inr []"
| "finite_column (Fin x # xs) =
     (case finite_column xs of Inl e \<Rightarrow> Inl e | Inr ys \<Rightarrow> Inr (x # ys))"
| "finite_column (_ # xs) = Inl LinAlgError"

text \<open>
  \<^verbatim>\<open>ifgs_all\<close> is stacked (a copy) before the first call of the Decomposer; that
  call then centres \<^verbatim>\<open>ifgs_baseline\<close> in place, and the name stands for the centred
  array from there on. The result is the pair the function returns. The arrays that go
  to the Monitoring Extender are new (line 51, line 55) and the dictionaries view the
  arrays of the baseline, so no dictionary is a view of them.
\<close>

definition LiCSAlert ::
  "(array2 \<Rightarrow> error + array2) \<Rightarrow> array2 \<Rightarrow> real list \<Rightarrow> array2 \<Rightarrow> array2 option \<Rightarrow> int
     \<Rightarrow> error + tc_dict list \<times> tc_dict list" where
  "LiCSAlert linalg_inv sources time_values ifgs_baseline ifgs_monitoring t =
     (let n_times_baseline = dim0 ifgs_baseline
      in ebind (case ifgs_monitoring of
                  None \<Rightarrow> Inr ifgs_baseline
                | Some im \<Rightarrow> vstack ifgs_baseline im) (\<lambda>ifgs_all.
         ebind (bss_components_inversion linalg_inv sources ifgs_baseline True) (\<lambda>b.
         let tcs_c = columns (b_m b); ifgs_baseline = b_interferograms b
         in
         ebind (tcs_baseline tcs_c (take n_times_baseline time_values) t) (\<lambda>sources_tcs.
         ebind (residual_for_pixels sources sources_tcs ifgs_baseline None) (\<lambda>(residual_tb, residual_cb).
         ebind (finite_column residual_cb) (\<lambda>residual_cb.
         ebind (tcs_baseline [residual_cb] (take n_times_baseline time_values) t)
           (\<lambda>residual_tcs.
         case ifgs_monitoring of
           None \<Rightarrow> Inr (sources_tcs, residual_tcs)
         | Some im \<Rightarrow>
             ebind (bss_components_inversion linalg_inv sources im True) (\<lambda>b2.
             ebind (tcs_monitoring Map.empty (columns (b_m b2)) sources_tcs time_values False)
               (\<lambda>sources_tcs_monitor.
             ebind (residual_for_pixels sources (returned sources_tcs_monitor) ifgs_all None)
               (\<lambda>(residual_t_bm, residual_c_bm).
             ebind (finite_column residual_c_bm) (\<lambda>residual_c_bm.
             ebind (tcs_monitoring Map.empty [residual_c_bm] residual_tcs time_values True)
               (\<lambda>residual_tcs_monitor.
             Inr (returned sources_tcs_monitor, returned residual_tcs_monitor)))))))))))))"

section \<open>A worked example\<close>

text \<open>The state of the time course 1, -1, -1, 1 at the times 0, 1, 2, 3 with
  \<open>t_recalculate = 2\<close> (the fitted line is the zero line, and sigma is 1), and what
  the Monitoring Extender makes of it for the two new cumulative values 1 and 2.\<close>

definition ex_tc :: tc_dict where
  "ex_tc = \<lparr> cumulative_tc = [1, -1, -1, 1], gradient = 0,
             lines = [[Fin 0, Fin 0, NaN, NaN], [NaN, Fin 0, Fin 0, NaN],
                      [NaN, NaN, Fin 0, Fin 0], [NaN, NaN, NaN, Fin 0]],
             sigma = 1, distances = [Fin 1, Fin 1, Fin 1, Fin 1], t_recalculate = 2 \<rparr>"

definition ex_monitored :: mon_result where
  "ex_monitored =
     \<lparr> returned =
         [\<lparr> cumulative_tc = [1, -1, -1, 1, 2, 3], gradient = 0,
            lines = [[Fin 0, Fin 0, NaN, NaN, NaN, NaN],
                     [NaN, Fin 0, Fin 0, NaN, NaN, NaN],
                     [NaN, NaN, Fin 0, Fin 0, Fin 0, NaN],
                     [NaN, NaN, NaN, Fin 0, Fin 0, Fin (3 / 2)],
                     [NaN, NaN, NaN, NaN, Fin 0, Fin (3 / 2)],
                     [NaN, NaN, NaN, NaN, NaN, Fin (3 / 2)]],
            sigma = 1, distances = [Fin 1, Fin 1, Fin 1, Fin 1, Fin 2, Fin (3 / 2)],
            t_recalculate = 2 \<rparr>],
       tcs_c_after = [[2, 3]],
       sources_tcs_after = [ex_tc] \<rparr>"

text \<open>The same state when the caller passes as extension the array 1, -1, -1, 1 that
  the dictionary is a view of, with the times 0 to 7: what is returned, and what the
  caller's array and the caller's dictionary hold after the call.\<close>

definition ex_shared :: mon_result where
  "ex_shared =
     \<lparr> returned =
         [\<lparr> cumulative_tc = [1, -1, -1, 1, 2, 0, 0, 2], gradient = 0,
            lines = [[Fin 0, Fin 0, NaN, NaN, NaN, NaN, NaN, NaN],
                     [NaN, Fin 0, Fin 0, NaN, NaN, NaN, NaN, NaN],
                     [NaN, NaN, Fin 0, Fin 0, Fin 0, NaN, NaN, NaN],
                     [NaN, NaN, NaN, Fin 0, Fin 0, Fin (3 / 2), NaN, NaN],
                     [NaN, NaN, NaN, NaN, Fin 0, Fin (3 / 2), Fin 1, NaN],
                     [NaN, NaN, NaN, NaN, NaN, Fin (3 / 2), Fin 1, Fin 0],
                     [NaN, NaN, NaN, NaN, NaN, NaN, Fin 1, Fin 0],
                     [NaN, NaN, NaN, NaN, NaN, NaN, NaN, Fin 0]],
            sigma = 1,
            distances = [Fin 1, Fin 1, Fin 1, Fin 1, Fin 2, Fin (3 / 2), Fin 1, Fin 2],
            t_recalculate = 2 \<rparr>],
       tcs_c_after = [[2, 0, 0, 2]],
       sources_tcs_after = [ex_tc\<lparr> cumulative_tc := [2, 0, 0, 2] \<rparr>] \<rparr>"



text \<open>One source over two pixels, three baseline interferograms and one monitoring
  interferogram with the values 2 and 0 (the source plus 1, so the mean of each array
  is 1), and the inverse of a 1 by 1 array for \<^verbatim>\<open>np.linalg.inv\<close>.\<close>

definition ex_sources :: array2 where
  "ex_sources = \<lparr> dim0 = 1, dim1 = 2, rows = [[1, -1]] \<rparr>"

definition ex_ifgs_baseline :: array2 where
  "ex_ifgs_baseline = \<lparr> dim0 = 3, dim1 = 2, rows = [[2, 0], [2, 0], [2, 0]] \<rparr>"

definition ex_ifgs_monitoring :: array2 where
  "ex_ifgs_monitoring = \<lparr> dim0 = 1, dim1 = 2, rows = [[2, 0]] \<rparr>"

definition inv_1x1 :: "array2 \<Rightarrow> error + array2" where
  "inv_1x1 A =
     (if dim0 A = 1 \<and> dim1 A = 1 \<and> entry A 0 0 \<noteq> 0
      then Inr \<lparr> dim0 = 1, dim1 = 1, rows = [[1 / entry A 0 0]] \<rparr>
      else Inl LinAlgError)"

text \<open>What the Orchestrator computes for them with the times 0, 1, 2, 3 and
  \<open>t_recalculate = 2\<close>: the dictionary of the source and the dictionary of the
  residual, after the baseline and after the monitoring step.\<close>

definition ex_strength_tc :: tc_dict where
  "ex_strength_tc = \<lparr> cumulative_tc = [1, 2, 3], gradient = 1,
                       lines = [[Fin 1, Fin 1, NaN], [NaN, Fin 2, Fin 2], [NaN, NaN, Fin 3]],
                       sigma = 0, distances = [NaN, NaN, NaN], t_recalculate = 2 \<rparr>"

definition ex_residual_tc :: tc_dict where
  "ex_residual_tc = \<lparr> cumulative_tc = [0, 0, 0], gradient = 0,
                       lines = [[Fin 0, Fin 0, NaN], [NaN, Fin 0, Fin 0], [NaN, NaN, Fin 0]],
                       sigma = 0, distances = [NaN, NaN, NaN], t_recalculate = 2 \<rparr>"

definition ex_strength_tc_monitor :: tc_dict where
  "ex_strength_tc_monitor =
     \<lparr> cumulative_tc = [1, 2, 3, 4], gradient = 1,
       lines = [[Fin 1, Fin 1, NaN, NaN], [NaN, Fin 2, Fin 2, Fin 2],
                [NaN, NaN, Fin 3, Fin 3], [NaN, NaN, NaN, Fin 4]],
       sigma = 0, distances = [NaN, NaN, NaN, NaN], t_recalculate = 2 \<rparr>"

definition ex_residual_tc_monitor :: tc_dict where
  "ex_residual_tc_monitor =
     \<lparr> cumulative_tc = [1, 2, 3, 4], gradient = 0,
       lines = [[Fin 0, Fin 0, NaN, NaN], [NaN, Fin 0, Fin 0, Fin (5 / 2)],
                [NaN, NaN, Fin 0, Fin (5 / 2)], [NaN, NaN, NaN, Fin (5 / 2)]],
       sigma = 0, distances = [NaN, NaN, NaN, PInf], t_recalculate = 2 \<rparr>"

section \<open>The loop over the sources\<close>

lemma monitoring_loop_frame:
  "monitoring_loop t tv ns st = Inr st' \<Longrightarrow>
     cumulative_tc st' = cumulative_tc st \<and> gradient st' = gradient st
     \<and> sigma st' = sigma st \<and> t_recalculate st' = t_recalculate st"
proof (induction ns arbitrary: st)
  case Nil
  then show ?case by simp
next
  case (Cons n ns)
  from Cons.prems show ?case
    by (auto split: sum.splits if_splits dest!: Cons.IH)
qed

lemma monitor_source_Inr:
  assumes "monitor_source view_of r t nb nm tv n mem = Inr mem'"
  obtains tcs' cum ls ds st' where
    "update_cumulative r n (m_sources_tcs_monitor mem ! n) (m_tcs_c mem) = Inr (tcs', cum)"
    "pad_lines nm (lines (m_sources_tcs_monitor mem ! n)) = Inr ls"
    "pad_distances nm (distances (m_sources_tcs_monitor mem ! n)) = Inr ds"
    "monitoring_loop t tv [nb..<nat (int nb + nm)]
       ((m_sources_tcs_monitor mem ! n)\<lparr>cumulative_tc := cum, lines := ls, distances := ds\<rparr>) = Inr st'"
    "m_tcs_c mem' = tcs'"
    "m_sources_tcs_monitor mem' = (m_sources_tcs_monitor mem)[n := st']"
    "m_sources_tcs mem'
       = write_views view_of n (m_tcs_c mem ! n) (tcs' ! n) (m_sources_tcs mem)"
  using assms unfolding monitor_source_def Let_def
  by (auto split: sum.splits prod.splits)

lemma update_cumulative_Inr:
  assumes "update_cumulative r n d tcs = Inr (tcs', cum)"
  shows "n < length tcs" "length tcs' = length tcs"
    "\<And>k. k \<noteq> n \<Longrightarrow> tcs' ! k = tcs ! k"
    "r \<Longrightarrow> tcs' = tcs \<and> cum = tcs ! n"
    "\<not> r \<Longrightarrow> cumulative_tc d \<noteq> []
        \<and> tcs' ! n = map (\<lambda>v. v + last (cumulative_tc d)) (tcs ! n)
        \<and> cum = cumulative_tc d @ map (\<lambda>v. v + last (cumulative_tc d)) (tcs ! n)"
  using assms unfolding update_cumulative_def Let_def
  by (auto split: if_splits)

lemma length_write_views [simp]:
  "length (write_views view_of j old new ds) = length ds"
  by (simp add: write_views_def)

lemma write_views_nth:
  "n < length ds \<Longrightarrow>
     write_views view_of j old new ds ! n
     = (if view_of n = Some j \<and> cumulative_tc (ds ! n) = old
        then (ds ! n)\<lparr>cumulative_tc := new\<rparr> else ds ! n)"
  by (simp add: write_views_def)

lemma write_views_same: "write_views view_of j old old ds = ds"
  by (rule nth_equalityI) (auto simp: write_views_nth)

text \<open>What the loop over the sources leaves of the caller's list: a dictionary
  changes at most in its \<^verbatim>\<open>cumulative_tc\<close>, and only if it is a view of a column
  that the loop writes; residual mode writes no column.\<close>

lemma monitor_sources_callers_list:
  "monitor_sources view_of r t nb nm tv ns mem = Inr mem' \<Longrightarrow>
     length (m_sources_tcs mem') = length (m_sources_tcs mem)
     \<and> (\<forall>k<length (m_sources_tcs mem).
          (\<exists>cum. m_sources_tcs mem' ! k = (m_sources_tcs mem ! k)\<lparr>cumulative_tc := cum\<rparr>)
          \<and> ((\<forall>j\<in>set ns. view_of k \<noteq> Some j) \<longrightarrow>
                m_sources_tcs mem' ! k = m_sources_tcs mem ! k))
     \<and> (r \<longrightarrow> m_sources_tcs mem' = m_sources_tcs mem)"
proof (induction ns arbitrary: mem)
  case Nil
  have "\<exists>cum. d = d\<lparr>cumulative_tc := cum\<rparr>" for d :: tc_dict
    by (rule exI[of _ "cumulative_tc d"]) simp
  with Nil show ?case by auto
next
  case (Cons n ns)
  from Cons.prems obtain m1 where
    s: "monitor_source view_of r t nb nm tv n mem = Inr m1" and
    l: "monitor_sources view_of r t nb nm tv ns m1 = Inr mem'"
    by (auto split: sum.splits)
  from s obtain tcs' cum ls ds st' where
    u: "update_cumulative r n (m_sources_tcs_monitor mem ! n) (m_tcs_c mem) = Inr (tcs', cum)" and
    m1: "m_sources_tcs m1
           = write_views view_of n (m_tcs_c mem ! n) (tcs' ! n) (m_sources_tcs mem)"
    by (rule monitor_source_Inr)
  note ih = Cons.IH[OF l]
  have len1: "length (m_sources_tcs m1) = length (m_sources_tcs mem)" by (simp add: m1)
  have one: "\<exists>cum. m_sources_tcs m1 ! k = (m_sources_tcs mem ! k)\<lparr>cumulative_tc := cum\<rparr>"
    if "k < length (m_sources_tcs mem)" for k
  proof (cases "view_of k = Some n \<and> cumulative_tc (m_sources_tcs mem ! k) = m_tcs_c mem ! n")
    case True
    with that show ?thesis by (auto simp: m1 write_views_nth)
  next
    case False
    with that have "m_sources_tcs m1 ! k = m_sources_tcs mem ! k"
      by (auto simp: m1 write_views_nth)
    then have "m_sources_tcs m1 ! k
        = (m_sources_tcs mem ! k)\<lparr>cumulative_tc := cumulative_tc (m_sources_tcs mem ! k)\<rparr>"
      by simp
    then show ?thesis by blast
  qed
  have other: "m_sources_tcs m1 ! k = m_sources_tcs mem ! k"
    if "k < length (m_sources_tcs mem)" "view_of k \<noteq> Some n" for k
    using that by (simp add: m1 write_views_nth)
  have res: "m_sources_tcs m1 = m_sources_tcs mem" if r
    using update_cumulative_Inr(4)[OF u that] by (simp add: m1 write_views_same)
  show ?case
  proof (intro conjI allI impI)
    from ih len1 show "length (m_sources_tcs mem') = length (m_sources_tcs mem)" by simp
  next
    fix k assume k: "k < length (m_sources_tcs mem)"
    from ih k len1 obtain c2 where
      "m_sources_tcs mem' ! k = (m_sources_tcs m1 ! k)\<lparr>cumulative_tc := c2\<rparr>" by auto
    moreover from one[OF k] obtain c1 where
      "m_sources_tcs m1 ! k = (m_sources_tcs mem ! k)\<lparr>cumulative_tc := c1\<rparr>" by blast
    ultimately have "m_sources_tcs mem' ! k = (m_sources_tcs mem ! k)\<lparr>cumulative_tc := c2\<rparr>"
      by simp
    then show "\<exists>cum. m_sources_tcs mem' ! k = (m_sources_tcs mem ! k)\<lparr>cumulative_tc := cum\<rparr>"
      by blast
  next
    fix k assume k: "k < length (m_sources_tcs mem)"
      and v: "\<forall>j\<in>set (n # ns). view_of k \<noteq> Some j"
    from ih k len1 v have "m_sources_tcs mem' ! k = m_sources_tcs m1 ! k" by auto
    with other[OF k] v show "m_sources_tcs mem' ! k = m_sources_tcs mem ! k" by simp
  next
    assume r
    with ih res show "m_sources_tcs mem' = m_sources_tcs mem" by simp
  qed
qed

text \<open>What the loop over the sources leaves for a source it has processed, in terms
  of the memory before the loop.\<close>

lemma monitor_sources_frame:
  "monitor_sources view_of r t nb nm tv ns mem = Inr mem' \<Longrightarrow>
     length (m_sources_tcs_monitor mem') = length (m_sources_tcs_monitor mem)
     \<and> length (m_tcs_c mem') = length (m_tcs_c mem)
     \<and> (\<forall>k. k \<notin> set ns \<longrightarrow> m_sources_tcs_monitor mem' ! k = m_sources_tcs_monitor mem ! k
                              \<and> m_tcs_c mem' ! k = m_tcs_c mem ! k)"
proof (induction ns arbitrary: mem)
  case Nil
  then show ?case by simp
next
  case (Cons n ns)
  from Cons.prems obtain m1 where
    s: "monitor_source view_of r t nb nm tv n mem = Inr m1" and
    l: "monitor_sources view_of r t nb nm tv ns m1 = Inr mem'"
    by (auto split: sum.splits)
  from s obtain tcs' cum ls ds st' where
    u: "update_cumulative r n (m_sources_tcs_monitor mem ! n) (m_tcs_c mem) = Inr (tcs', cum)" and
    m1: "m_tcs_c m1 = tcs'"
        "m_sources_tcs_monitor m1 = (m_sources_tcs_monitor mem)[n := st']"
    by (rule monitor_source_Inr)
  from Cons.IH[OF l] update_cumulative_Inr(2,3)[OF u] show ?case
    by (auto simp: m1)
qed

lemma monitor_source_other:
  assumes "monitor_source view_of r t nb nm tv k mem = Inr m1" "n \<noteq> k"
  shows "m_sources_tcs_monitor m1 ! n = m_sources_tcs_monitor mem ! n"
    "m_tcs_c m1 ! n = m_tcs_c mem ! n"
    "length (m_tcs_c m1) = length (m_tcs_c mem)"
    "length (m_sources_tcs_monitor m1) = length (m_sources_tcs_monitor mem)"
proof -
  from assms(1) obtain tcs' cum ls ds st' where
    u: "update_cumulative r k (m_sources_tcs_monitor mem ! k) (m_tcs_c mem) = Inr (tcs', cum)" and
    m1: "m_tcs_c m1 = tcs'"
        "m_sources_tcs_monitor m1 = (m_sources_tcs_monitor mem)[k := st']"
    by (rule monitor_source_Inr)
  from update_cumulative_Inr(2,3)[OF u] assms(2)
  show "m_sources_tcs_monitor m1 ! n = m_sources_tcs_monitor mem ! n"
    "m_tcs_c m1 ! n = m_tcs_c mem ! n"
    "length (m_tcs_c m1) = length (m_tcs_c mem)"
    "length (m_sources_tcs_monitor m1) = length (m_sources_tcs_monitor mem)"
    by (simp_all add: m1)
qed

lemma monitor_sources_nth:
  assumes "monitor_sources view_of r t nb nm tv ns mem = Inr mem'" "distinct ns" "n \<in> set ns"
  shows "\<exists>m1 m2.
      m_sources_tcs_monitor m1 ! n = m_sources_tcs_monitor mem ! n
    \<and> m_tcs_c m1 ! n = m_tcs_c mem ! n
    \<and> length (m_tcs_c m1) = length (m_tcs_c mem)
    \<and> length (m_sources_tcs_monitor m1) = length (m_sources_tcs_monitor mem)
    \<and> monitor_source view_of r t nb nm tv n m1 = Inr m2
    \<and> m_sources_tcs_monitor mem' ! n = m_sources_tcs_monitor m2 ! n
    \<and> m_tcs_c mem' ! n = m_tcs_c m2 ! n"
  using assms
proof (induction ns arbitrary: mem)
  case Nil
  then show ?case by simp
next
  case (Cons k ns)
  from Cons.prems(1) obtain m1 where
    s: "monitor_source view_of r t nb nm tv k mem = Inr m1" and
    l: "monitor_sources view_of r t nb nm tv ns m1 = Inr mem'"
    by (auto split: sum.splits)
  show ?case
  proof (cases "n = k")
    case True
    with Cons.prems(2) have "n \<notin> set ns" by simp
    with monitor_sources_frame[OF l] have
      "m_sources_tcs_monitor mem' ! n = m_sources_tcs_monitor m1 ! n"
      "m_tcs_c mem' ! n = m_tcs_c m1 ! n" by simp_all
    with s True show ?thesis by blast
  next
    case False
    with Cons.prems have "distinct ns" "n \<in> set ns" by simp_all
    from Cons.IH[OF l this] obtain m2 m3 where
      h: "m_sources_tcs_monitor m2 ! n = m_sources_tcs_monitor m1 ! n"
         "m_tcs_c m2 ! n = m_tcs_c m1 ! n"
         "length (m_tcs_c m2) = length (m_tcs_c m1)"
         "length (m_sources_tcs_monitor m2) = length (m_sources_tcs_monitor m1)"
         "monitor_source view_of r t nb nm tv n m2 = Inr m3"
         "m_sources_tcs_monitor mem' ! n = m_sources_tcs_monitor m3 ! n"
         "m_tcs_c mem' ! n = m_tcs_c m3 ! n"
      by blast
    from monitor_source_other[OF s False] h show ?thesis
      by (intro exI[of _ m2] exI[of _ m3]) simp
  qed
qed

text \<open>The call as a whole, seen from one source \<open>n\<close>: the four steps of the loop
  body ran on the caller's dictionary \<open>sources_tcs ! n\<close> and on an array that still
  had the caller's column \<open>n\<close>.\<close>

lemma tcs_monitoring_Inr:
  assumes "tcs_monitoring view_of tcs_c sources_tcs tv r = Inr res"
  obtains mem' where
    "sources_tcs \<noteq> []"
    "monitor_sources view_of r (t_recalculate (sources_tcs ! 0))
        (length (cumulative_tc (sources_tcs ! 0)))
        (n_times_monitor tcs_c sources_tcs r) tv [0..<length sources_tcs]
        \<lparr>m_tcs_c = tcs_c, m_sources_tcs = sources_tcs, m_sources_tcs_monitor = sources_tcs\<rparr>
      = Inr mem'"
    "res = \<lparr>returned = m_sources_tcs_monitor mem', tcs_c_after = m_tcs_c mem',
            sources_tcs_after = m_sources_tcs mem'\<rparr>"
  using assms unfolding tcs_monitoring_def Let_def
  by (auto split: if_splits sum.splits)

lemma tcs_monitoring_frame:
  assumes "tcs_monitoring view_of tcs_c sources_tcs tv r = Inr res"
  shows "length (tcs_c_after res) = length tcs_c"
    "length (returned res) = length sources_tcs"
    "length (tcs_c_after res) = length tcs_c"
    "\<And>k. length sources_tcs \<le> k \<Longrightarrow> tcs_c_after res ! k = tcs_c ! k"
proof -
  from assms obtain mem' where
    l: "monitor_sources view_of r (t_recalculate (sources_tcs ! 0))
        (length (cumulative_tc (sources_tcs ! 0)))
        (n_times_monitor tcs_c sources_tcs r) tv [0..<length sources_tcs]
        \<lparr>m_tcs_c = tcs_c, m_sources_tcs = sources_tcs, m_sources_tcs_monitor = sources_tcs\<rparr>
      = Inr mem'" and
    res: "res = \<lparr>returned = m_sources_tcs_monitor mem', tcs_c_after = m_tcs_c mem',
            sources_tcs_after = m_sources_tcs mem'\<rparr>"
    by (rule tcs_monitoring_Inr)
  from monitor_sources_frame[OF l]
  show "length (tcs_c_after res) = length tcs_c"
    "length (returned res) = length sources_tcs"
    "length (tcs_c_after res) = length tcs_c"
    "\<And>k. length sources_tcs \<le> k \<Longrightarrow> tcs_c_after res ! k = tcs_c ! k"
    by (simp_all add: res)
qed

lemma tcs_monitoring_source:
  assumes "tcs_monitoring view_of tcs_c sources_tcs tv r = Inr res" "n < length sources_tcs"
  obtains tcs1 tcs' cum ls ds where
    "length tcs1 = length tcs_c" "tcs1 ! n = tcs_c ! n"
    "update_cumulative r n (sources_tcs ! n) tcs1 = Inr (tcs', cum)"
    "pad_lines (n_times_monitor tcs_c sources_tcs r) (lines (sources_tcs ! n)) = Inr ls"
    "pad_distances (n_times_monitor tcs_c sources_tcs r) (distances (sources_tcs ! n)) = Inr ds"
    "monitoring_loop (t_recalculate (sources_tcs ! 0)) tv
        [length (cumulative_tc (sources_tcs ! 0)) ..<
           nat (int (length (cumulative_tc (sources_tcs ! 0)))
                + n_times_monitor tcs_c sources_tcs r)]
        ((sources_tcs ! n)\<lparr>cumulative_tc := cum, lines := ls, distances := ds\<rparr>)
      = Inr (returned res ! n)"
    "tcs_c_after res ! n = tcs' ! n"
proof -
  from assms(1) obtain mem' where
    l: "monitor_sources view_of r (t_recalculate (sources_tcs ! 0))
        (length (cumulative_tc (sources_tcs ! 0)))
        (n_times_monitor tcs_c sources_tcs r) tv [0..<length sources_tcs]
        \<lparr>m_tcs_c = tcs_c, m_sources_tcs = sources_tcs, m_sources_tcs_monitor = sources_tcs\<rparr>
      = Inr mem'" and
    res: "res = \<lparr>returned = m_sources_tcs_monitor mem', tcs_c_after = m_tcs_c mem',
            sources_tcs_after = m_sources_tcs mem'\<rparr>"
    by (rule tcs_monitoring_Inr)
  from assms(2) have "distinct [0..<length sources_tcs]" "n \<in> set [0..<length sources_tcs]"
    by simp_all
  from monitor_sources_nth[OF l this] obtain m1 m2 where
    h: "m_sources_tcs_monitor m1 ! n = sources_tcs ! n"
       "m_tcs_c m1 ! n = tcs_c ! n"
       "length (m_tcs_c m1) = length tcs_c"
       "length (m_sources_tcs_monitor m1) = length sources_tcs"
       "monitor_source view_of r (t_recalculate (sources_tcs ! 0))
          (length (cumulative_tc (sources_tcs ! 0)))
          (n_times_monitor tcs_c sources_tcs r) tv n m1 = Inr m2"
       "m_sources_tcs_monitor mem' ! n = m_sources_tcs_monitor m2 ! n"
       "m_tcs_c mem' ! n = m_tcs_c m2 ! n"
    by auto
  from h(5) obtain tcs' cum ls ds st' where
    k: "update_cumulative r n (m_sources_tcs_monitor m1 ! n) (m_tcs_c m1) = Inr (tcs', cum)"
       "pad_lines (n_times_monitor tcs_c sources_tcs r)
          (lines (m_sources_tcs_monitor m1 ! n)) = Inr ls"
       "pad_distances (n_times_monitor tcs_c sources_tcs r)
          (distances (m_sources_tcs_monitor m1 ! n)) = Inr ds"
       "monitoring_loop (t_recalculate (sources_tcs ! 0)) tv
          [length (cumulative_tc (sources_tcs ! 0)) ..<
             nat (int (length (cumulative_tc (sources_tcs ! 0)))
                  + n_times_monitor tcs_c sources_tcs r)]
          ((m_sources_tcs_monitor m1 ! n)\<lparr>cumulative_tc := cum, lines := ls, distances := ds\<rparr>)
        = Inr st'"
       "m_tcs_c m2 = tcs'"
       "m_sources_tcs_monitor m2 = (m_sources_tcs_monitor m1)[n := st']"
    by (rule monitor_source_Inr)
  from k(5,6) h(4) assms(2) have "m_sources_tcs_monitor m2 ! n = st'" "m_tcs_c m2 ! n = tcs' ! n"
    by simp_all
  with h k res show ?thesis
    by (intro that[of "m_tcs_c m1" tcs' cum ls ds]) simp_all
qed


section \<open>What the Monitoring Extender returns and what it writes\<close>

lemma ex_polyfit: "polyfit1 [0, 1, 2, 3] [1, -1, -1, 1] = Inr (0, 0)"
  by code_simp

lemma ex_lines:
  "baseline_lines 2 (polyval1 0 0 [0, 1, 2, 3]) [0..<4] (replicate 4 (replicate 4 NaN))
   = Inr (lines ex_tc)"
  by code_simp

lemma ex_lpd: "line_point_distances [1, -1, -1, 1] (polyval1 0 0 [0, 1, 2, 3]) = [1, -1, -1, 1]"
  by code_simp

lemma ex_std: "np_std [1, -1, -1, 1] = 1"
  by (simp add: np_std_def mean_def)

lemma ex_tc_baseline: "tc_baseline 4 [1, -1, -1, 1] [0, 1, 2, 3] 2 = Inr ex_tc"
  unfolding tc_baseline_def ex_polyfit sum.case prod.case Let_def ex_lines ex_lpd ex_std
  by (simp add: ex_tc_def)

lemma ex_baseline_run: "tcs_baseline [[1, -1, -1, 1]] [0, 1, 2, 3] 2 = Inr [ex_tc]"
proof -
  have "shape0 [[1, -1, -1, 1]] = 4" by (simp add: shape0_def)
  then show ?thesis
    unfolding tcs_baseline_def by (simp only: collect.simps ex_tc_baseline sum.case)
qed

lemma ex_monitoring_run:
  "tcs_monitoring Map.empty [[1, 2]] [ex_tc] [0, 1, 2, 3, 4, 5] False = Inr ex_monitored"
  by code_simp

text \<open>
  Claim C1. When the Monitoring Extender returns, it returns one dictionary per source,
  and the cumulative time course of source \<open>n\<close> is, in per-source mode, the
  baseline time course followed by the new values of column \<open>n\<close>, each increased by
  the last baseline value; in residual mode it is column \<open>n\<close> of the supplied array,
  unchanged.
\<close>
theorem tcs_monitoring_cumulative:
  assumes "tcs_monitoring view_of tcs_c sources_tcs time_values residual = Inr res"
    and "n < length sources_tcs"
  shows "length (returned res) = length sources_tcs
    \<and> cumulative_tc (returned res ! n) =
        (if residual then tcs_c ! n
         else cumulative_tc (sources_tcs ! n)
              @ map (\<lambda>v. v + last (cumulative_tc (sources_tcs ! n))) (tcs_c ! n))"
proof -
  from assms obtain tcs1 tcs' cum ls ds where
    h: "tcs1 ! n = tcs_c ! n"
       "update_cumulative residual n (sources_tcs ! n) tcs1 = Inr (tcs', cum)"
       "monitoring_loop (t_recalculate (sources_tcs ! 0)) time_values
        [length (cumulative_tc (sources_tcs ! 0)) ..<
           nat (int (length (cumulative_tc (sources_tcs ! 0)))
                + n_times_monitor tcs_c sources_tcs residual)]
        ((sources_tcs ! n)\<lparr>cumulative_tc := cum, lines := ls, distances := ds\<rparr>)
      = Inr (returned res ! n)"
    by (rule tcs_monitoring_source)
  from monitoring_loop_frame[OF h(3)] have "cumulative_tc (returned res ! n) = cum"
    by simp
  with update_cumulative_Inr(4,5)[OF h(2)] h(1) tcs_monitoring_frame(2)[OF assms(1)]
  show ?thesis by (cases residual) simp_all
qed

theorem tcs_monitoring_cumulative_witness:
  "tcs_monitoring Map.empty [[1, 2]] [ex_tc] [0, 1, 2, 3, 4, 5] False = Inr ex_monitored
   \<and> length (returned ex_monitored) = length [ex_tc]
   \<and> cumulative_tc (returned ex_monitored ! 0) = [1, -1, -1, 1] @ [1 + 1, 2 + 1]"
  using tcs_monitoring_cumulative[OF ex_monitoring_run, of 0] ex_monitoring_run
  by (simp add: ex_tc_def)

text \<open>The dictionary returned for source \<open>n\<close> has the gradient, the sigma and the
  \<open>t_recalculate\<close> of the caller's dictionary: the loop writes none of them.\<close>

lemma tcs_monitoring_baseline_fields:
  assumes "tcs_monitoring view_of tcs_c sources_tcs time_values residual = Inr res"
    and "n < length sources_tcs"
  shows "gradient (returned res ! n) = gradient (sources_tcs ! n)
    \<and> sigma (returned res ! n) = sigma (sources_tcs ! n)
    \<and> t_recalculate (returned res ! n) = t_recalculate (sources_tcs ! n)"
proof -
  from assms obtain cum ls ds where
    "monitoring_loop (t_recalculate (sources_tcs ! 0)) time_values
        [length (cumulative_tc (sources_tcs ! 0)) ..<
           nat (int (length (cumulative_tc (sources_tcs ! 0)))
                + n_times_monitor tcs_c sources_tcs residual)]
        ((sources_tcs ! n)\<lparr>cumulative_tc := cum, lines := ls, distances := ds\<rparr>)
      = Inr (returned res ! n)"
    by (rule tcs_monitoring_source)
  from monitoring_loop_frame[OF this]
  show ?thesis by simp
qed

text \<open>The caller's list after the call. The deep copy keeps every write to a
  dictionary away from it, so a dictionary of the caller changes at most in its
  \<^verbatim>\<open>cumulative_tc\<close>, and not at all when it has memory of its own, nor in
  residual mode, which writes nothing to \<^verbatim>\<open>tcs_c\<close>.\<close>

lemma tcs_monitoring_callers_list:
  assumes "tcs_monitoring view_of tcs_c sources_tcs time_values residual = Inr res"
  shows "length (sources_tcs_after res) = length sources_tcs"
    "\<And>n. n < length sources_tcs \<Longrightarrow>
       \<exists>cum. sources_tcs_after res ! n = (sources_tcs ! n)\<lparr>cumulative_tc := cum\<rparr>"
    "\<And>n. n < length sources_tcs \<Longrightarrow> view_of n = None \<Longrightarrow>
       sources_tcs_after res ! n = sources_tcs ! n"
    "residual \<Longrightarrow> sources_tcs_after res = sources_tcs"
proof -
  from assms obtain mem' where
    l: "monitor_sources view_of residual (t_recalculate (sources_tcs ! 0))
        (length (cumulative_tc (sources_tcs ! 0)))
        (n_times_monitor tcs_c sources_tcs residual) time_values [0..<length sources_tcs]
        \<lparr>m_tcs_c = tcs_c, m_sources_tcs = sources_tcs, m_sources_tcs_monitor = sources_tcs\<rparr>
      = Inr mem'" and
    res: "res = \<lparr>returned = m_sources_tcs_monitor mem', tcs_c_after = m_tcs_c mem',
            sources_tcs_after = m_sources_tcs mem'\<rparr>"
    by (rule tcs_monitoring_Inr)
  note c = monitor_sources_callers_list[OF l]
  from c show "length (sources_tcs_after res) = length sources_tcs" by (simp add: res)
  from c show "\<exists>cum. sources_tcs_after res ! n = (sources_tcs ! n)\<lparr>cumulative_tc := cum\<rparr>"
    if "n < length sources_tcs" for n using that by (simp add: res)
  from c show "sources_tcs_after res ! n = sources_tcs ! n"
    if "n < length sources_tcs" "view_of n = None" for n using that by (simp add: res)
  from c show "sources_tcs_after res = sources_tcs" if residual
    using that by (simp add: res)
qed

text \<open>A dictionary of the caller that is a view of a column which the loop writes
  shows, after the call, what the column holds then.\<close>

lemma monitor_sources_view:
  assumes "monitor_sources view_of r t nb nm tv ns mem = Inr mem'"
    and "distinct ns" and "j \<in> set ns"
    and "k < length (m_sources_tcs mem)" and "view_of k = Some j"
    and "cumulative_tc (m_sources_tcs mem ! k) = m_tcs_c mem ! j"
  shows "m_sources_tcs mem' ! k = (m_sources_tcs mem ! k)\<lparr>cumulative_tc := m_tcs_c mem' ! j\<rparr>"
  using assms
proof (induction ns arbitrary: mem)
  case Nil
  then show ?case by simp
next
  case (Cons n ns)
  from Cons.prems(1) obtain m1 where
    s: "monitor_source view_of r t nb nm tv n mem = Inr m1" and
    l: "monitor_sources view_of r t nb nm tv ns m1 = Inr mem'"
    by (auto split: sum.splits)
  from s obtain tcs' cum ls ds st' where
    u: "update_cumulative r n (m_sources_tcs_monitor mem ! n) (m_tcs_c mem) = Inr (tcs', cum)" and
    c1: "m_tcs_c m1 = tcs'" and
    m1: "m_sources_tcs m1
           = write_views view_of n (m_tcs_c mem ! n) (tcs' ! n) (m_sources_tcs mem)"
    by (rule monitor_source_Inr)
  have len1: "length (m_sources_tcs m1) = length (m_sources_tcs mem)" by (simp add: m1)
  show ?case
  proof (cases "n = j")
    case True
    with Cons.prems(2) have nj: "j \<notin> set ns" by simp
    from True Cons.prems(4,5,6) have
      k1: "m_sources_tcs m1 ! k = (m_sources_tcs mem ! k)\<lparr>cumulative_tc := tcs' ! j\<rparr>"
      by (simp add: m1 write_views_nth)
    from nj Cons.prems(5) have "\<forall>i\<in>set ns. view_of k \<noteq> Some i" by auto
    with monitor_sources_callers_list[OF l] Cons.prems(4) len1
    have "m_sources_tcs mem' ! k = m_sources_tcs m1 ! k" by simp
    moreover from monitor_sources_frame[OF l] nj have "m_tcs_c mem' ! j = tcs' ! j"
      by (simp add: c1)
    ultimately show ?thesis using k1 by simp
  next
    case False
    with Cons.prems(2,3) have d: "distinct ns" "j \<in> set ns" by auto
    from False Cons.prems(4,5) have
      k1: "m_sources_tcs m1 ! k = m_sources_tcs mem ! k"
      by (simp add: m1 write_views_nth)
    from update_cumulative_Inr(3)[OF u, of j] False
    have "m_tcs_c m1 ! j = m_tcs_c mem ! j" by (simp add: c1)
    with k1 Cons.prems(6) have "cumulative_tc (m_sources_tcs m1 ! k) = m_tcs_c m1 ! j"
      by simp
    from Cons.IH[OF l d _ Cons.prems(5) this] Cons.prems(4) len1 k1
    show ?thesis by simp
  qed
qed

lemma tcs_monitoring_view:
  assumes "tcs_monitoring view_of tcs_c sources_tcs time_values residual = Inr res"
    and "n < length sources_tcs" and "view_of n = Some j" and "j < length sources_tcs"
    and "cumulative_tc (sources_tcs ! n) = tcs_c ! j"
  shows "sources_tcs_after res ! n
         = (sources_tcs ! n)\<lparr>cumulative_tc := tcs_c_after res ! j\<rparr>"
proof -
  from assms(1) obtain mem' where
    l: "monitor_sources view_of residual (t_recalculate (sources_tcs ! 0))
        (length (cumulative_tc (sources_tcs ! 0)))
        (n_times_monitor tcs_c sources_tcs residual) time_values [0..<length sources_tcs]
        \<lparr>m_tcs_c = tcs_c, m_sources_tcs = sources_tcs, m_sources_tcs_monitor = sources_tcs\<rparr>
      = Inr mem'" and
    res: "res = \<lparr>returned = m_sources_tcs_monitor mem', tcs_c_after = m_tcs_c mem',
            sources_tcs_after = m_sources_tcs mem'\<rparr>"
    by (rule tcs_monitoring_Inr)
  from assms(4) have "distinct [0..<length sources_tcs]" "j \<in> set [0..<length sources_tcs]"
    by simp_all
  from monitor_sources_view[OF l this _ assms(3)] assms(2,5) show ?thesis
    by (simp add: res)
qed

lemma ex_shared_run:
  "tcs_monitoring [0 \<mapsto> 0] [[1, -1, -1, 1]] [ex_tc] [0, 1, 2, 3, 4, 5, 6, 7] False
   = Inr ex_shared"
  by code_simp

text \<open>
  Claim C3. The deep copy of line 203 is made, in the words of its comment, "so that
  we can change without affecting version calculated only from baseline data", and the
  returned dictionaries keep gradient, sigma and \<open>t_recalculate\<close>. But the caller's
  list is not left as it was for every input. The Trend Tracker made the dictionary of
  the time course 1, -1, -1, 1 as a view of the caller's array; when that array is
  passed to the Monitoring Extender with this list, the \<^verbatim>\<open>+=\<close> of line 217 adds
  the last baseline value 1 to the array in place, and the caller's dictionary, which
  the copy was to protect, shows 2, 0, 0, 2 after the call.
\<close>
theorem tcs_monitoring_writes_callers_view:
  "tcs_baseline [[1, -1, -1, 1]] [0, 1, 2, 3] 2 = Inr [ex_tc]
   \<and> cumulative_tc ([ex_tc] ! 0) = [[1, -1, -1, 1]] ! 0
   \<and> tcs_monitoring [0 \<mapsto> 0] [[1, -1, -1, 1]] [ex_tc] [0, 1, 2, 3, 4, 5, 6, 7] False
       = Inr ex_shared
   \<and> gradient (returned ex_shared ! 0) = gradient ex_tc
   \<and> sigma (returned ex_shared ! 0) = sigma ex_tc
   \<and> t_recalculate (returned ex_shared ! 0) = t_recalculate ex_tc
   \<and> tcs_c_after ex_shared = [[2, 0, 0, 2]]
   \<and> cumulative_tc (sources_tcs_after ex_shared ! 0) = [2, 0, 0, 2]
   \<and> sources_tcs_after ex_shared \<noteq> [ex_tc]"
  using ex_baseline_run ex_shared_run by (simp add: ex_shared_def ex_tc_def)

text \<open>
  Claim C9. In per-source mode the caller's array \<^verbatim>\<open>tcs_c\<close> is changed by the
  call: column \<open>n\<close> holds its old values plus the last baseline cumulative value of
  source \<open>n\<close>.
\<close>
theorem tcs_monitoring_mutates_tcs_c:
  assumes "tcs_monitoring view_of tcs_c sources_tcs time_values False = Inr res"
    and "n < length sources_tcs"
  shows "length (tcs_c_after res) = length tcs_c
    \<and> tcs_c_after res ! n
        = map (\<lambda>v. v + last (cumulative_tc (sources_tcs ! n))) (tcs_c ! n)"
proof -
  from assms obtain tcs1 tcs' cum where
    h: "tcs1 ! n = tcs_c ! n"
       "update_cumulative False n (sources_tcs ! n) tcs1 = Inr (tcs', cum)"
       "tcs_c_after res ! n = tcs' ! n"
    by (rule tcs_monitoring_source)
  from update_cumulative_Inr(5)[OF h(2)] h(1,3) tcs_monitoring_frame(3)[OF assms(1)]
  show ?thesis by simp
qed

theorem tcs_monitoring_mutates_tcs_c_witness:
  "tcs_monitoring Map.empty [[1, 2]] [ex_tc] [0, 1, 2, 3, 4, 5] False = Inr ex_monitored
   \<and> tcs_c_after ex_monitored ! 0 = [2, 3]
   \<and> tcs_c_after ex_monitored \<noteq> [[1, 2]]"
  using tcs_monitoring_mutates_tcs_c[OF ex_monitoring_run, of 0] ex_monitoring_run
  by (simp add: ex_tc_def ex_monitored_def)

section \<open>What the Trend Tracker returns\<close>

lemma collect_Inr:
  "collect f xs = Inr ys \<Longrightarrow>
     length ys = length xs \<and> (\<forall>n<length xs. f (xs ! n) = Inr (ys ! n))"
proof (induction xs arbitrary: ys)
  case Nil
  then show ?case by simp
next
  case (Cons x xs)
  from Cons.prems obtain y ys' where
    h: "f x = Inr y" "collect f xs = Inr ys'" "ys = y # ys'"
    by (auto split: sum.splits)
  from Cons.IH[OF h(2)] h(1,3) show ?case
    by (auto simp: nth_Cons split: nat.splits)
qed

lemma polyfit1_Inr:
  assumes "polyfit1 x y = Inr (g, c)"
  shows "x \<noteq> []" "length x = length y" "c = mean y - g * mean x"
  using assms unfolding polyfit1_def Let_def
  by (auto split: if_splits)

lemma tc_baseline_Inr:
  assumes "tc_baseline n tc tv t = Inr st"
  obtains g c L where
    "polyfit1 tv tc = Inr (g, c)"
    "baseline_lines t (polyval1 g c tv) [0..<n] (replicate n (replicate n NaN)) = Inr L"
    "st = \<lparr> cumulative_tc = tc, gradient = g, lines = L,
            sigma = np_std (line_point_distances tc (polyval1 g c tv)),
            distances = map (\<lambda>d. np_abs (np_div (Fin d)
                                (Fin (np_std (line_point_distances tc (polyval1 g c tv))))))
                          (line_point_distances tc (polyval1 g c tv)),
            t_recalculate = t \<rparr>"
  using assms unfolding tc_baseline_def Let_def
  by (auto split: sum.splits prod.splits)

lemma tcs_baseline_source:
  assumes "tcs_baseline tcs_c tv t = Inr sts" "n < length tcs_c"
  shows "length sts = length tcs_c"
    "tc_baseline (length tv) (tcs_c ! n) tv t = Inr (sts ! n)"
proof -
  from assms(1) have c: "length sts = length tcs_c"
    "\<forall>k<length tcs_c. tc_baseline (shape0 tcs_c) (tcs_c ! k) tv t = Inr (sts ! k)"
    using collect_Inr[of "\<lambda>tc. tc_baseline (shape0 tcs_c) tc tv t" tcs_c sts]
    by (simp_all add: tcs_baseline_def)
  from assms(2) obtain c0 cs where tcs: "tcs_c = c0 # cs" by (cases tcs_c) auto
  with c(2) have "tc_baseline (shape0 tcs_c) c0 tv t = Inr (sts ! 0)" by force
  then obtain g c where "polyfit1 tv c0 = Inr (g, c)" by (rule tc_baseline_Inr)
  from polyfit1_Inr(2)[OF this] tcs have "shape0 tcs_c = length tv"
    by (simp add: shape0_def)
  with c assms(2) show "length sts = length tcs_c"
    "tc_baseline (length tv) (tcs_c ! n) tv t = Inr (sts ! n)" by simp_all
qed

section \<open>An extension by no time step\<close>

lemma monitor_source_no_step:
  assumes "n < length (m_tcs_c mem)" "m_tcs_c mem ! n = []"
    "cumulative_tc (m_sources_tcs_monitor mem ! n) \<noteq> []"
  shows "monitor_source view_of False t nb 0 tv n mem = Inr mem"
proof -
  have "update_cumulative False n (m_sources_tcs_monitor mem ! n) (m_tcs_c mem)
        = Inr (m_tcs_c mem, cumulative_tc (m_sources_tcs_monitor mem ! n))"
    using assms list_update_id[of "m_tcs_c mem" n]
    by (simp add: update_cumulative_def)
  then show ?thesis
    by (simp add: monitor_source_def pad_lines_def pad_distances_def write_views_same)
qed

lemma monitor_sources_no_step:
  assumes "\<forall>n\<in>set ns. n < length (m_tcs_c mem) \<and> m_tcs_c mem ! n = []
              \<and> cumulative_tc (m_sources_tcs_monitor mem ! n) \<noteq> []"
  shows "monitor_sources view_of False t nb 0 tv ns mem = Inr mem"
  using assms by (induction ns) (simp_all add: monitor_source_no_step)

text \<open>
  Claim C4. The Trend Tracker followed by the Monitoring Extender with an empty
  per-source extension (an array of no rows and one column per time course) returns the
  list of dictionaries of the Trend Tracker itself, so every field of every dictionary
  is the same, and leaves both of its arguments as they were. The matrix has at least one
  time course: for an empty list of dictionaries the Monitoring Extender raises
  IndexError at line 204.
\<close>

theorem tcs_monitoring_no_step:
  assumes "tcs_baseline tcs_c time_values t = Inr sources_tcs" and "tcs_c \<noteq> []"
  shows "tcs_monitoring view_of (replicate (length tcs_c) []) sources_tcs time_values' False
         = Inr \<lparr> returned = sources_tcs,
                 tcs_c_after = replicate (length tcs_c) [],
                 sources_tcs_after = sources_tcs \<rparr>"
proof -
  have len: "length sources_tcs = length tcs_c"
    using collect_Inr[of _ tcs_c sources_tcs] assms(1) by (simp add: tcs_baseline_def)
  have cum: "cumulative_tc (sources_tcs ! n) \<noteq> []" if "n < length tcs_c" for n
  proof -
    from tcs_baseline_source(2)[OF assms(1) that] obtain g c where
      "polyfit1 time_values (tcs_c ! n) = Inr (g, c)"
      "cumulative_tc (sources_tcs ! n) = tcs_c ! n"
      by (rule tc_baseline_Inr) simp
    with polyfit1_Inr(1,2)[OF this(1)] show ?thesis by auto
  qed
  have nm: "n_times_monitor (replicate (length tcs_c) []) sources_tcs False = 0"
    using assms(2) by (cases tcs_c) (simp_all add: n_times_monitor_def shape0_def)
  have "monitor_sources view_of False (t_recalculate (sources_tcs ! 0))
          (length (cumulative_tc (sources_tcs ! 0))) 0 time_values' [0..<length sources_tcs]
          \<lparr>m_tcs_c = replicate (length tcs_c) [], m_sources_tcs = sources_tcs,
           m_sources_tcs_monitor = sources_tcs\<rparr>
        = Inr \<lparr>m_tcs_c = replicate (length tcs_c) [], m_sources_tcs = sources_tcs,
               m_sources_tcs_monitor = sources_tcs\<rparr>"
    by (rule monitor_sources_no_step) (simp add: len cum)
  moreover from assms(2) len have "sources_tcs \<noteq> []" by auto
  ultimately show ?thesis
    by (simp add: tcs_monitoring_def nm)
qed

theorem tcs_monitoring_no_step_witness:
  "tcs_baseline [[1, -1, -1, 1]] [0, 1, 2, 3] 2 = Inr [ex_tc]
   \<and> tcs_monitoring Map.empty [[]] [ex_tc] [0, 1, 2, 3] False
       = Inr \<lparr> returned = [ex_tc], tcs_c_after = [[]], sources_tcs_after = [ex_tc] \<rparr>"
  using tcs_monitoring_no_step[OF ex_baseline_run, of Map.empty "[0, 1, 2, 3]"]
    ex_baseline_run
  by simp

section \<open>Sigma and the distances of the baseline\<close>


lemma sum_list_line_point_distances:
  "length tc = length tv \<Longrightarrow>
     sum_list (line_point_distances tc (polyval1 g c tv))
     = sum_list tc - g * sum_list tv - real (length tv) * c"
  unfolding line_point_distances_def polyval1_def
  by (induction tc tv rule: list_induct2) (simp_all add: algebra_simps)

text \<open>The residuals of a least-squares line with an intercept have mean zero; so do
  those of the minimum-norm solution.\<close>

lemma mean_line_point_distances:
  assumes "polyfit1 tv tc = Inr (g, c)"
  shows "mean (line_point_distances tc (polyval1 g c tv)) = 0"
proof -
  from polyfit1_Inr[OF assms] have h: "tv \<noteq> []" "length tv = length tc"
    "c = mean tc - g * mean tv" by simp_all
  then have n: "real (length tv) \<noteq> 0" "real (length tc) \<noteq> 0" by auto
  from h(3) have "c = sum_list tc / real (length tv) - g * (sum_list tv / real (length tv))"
    by (simp add: mean_def h(2))
  then have "real (length tv) * c = sum_list tc - g * sum_list tv"
    using n(1) by (simp add: field_simps)
  with h(2) have "sum_list (line_point_distances tc (polyval1 g c tv)) = 0"
    by (simp add: sum_list_line_point_distances)
  then show ?thesis by (simp add: mean_def)
qed

lemma np_std_mean_zero:
  assumes "mean ds = 0"
  shows "(np_std ds)\<^sup>2 = mean (map (\<lambda>d. d\<^sup>2) ds)"
proof -
  have "0 \<le> sum_list (map (\<lambda>d. d\<^sup>2) ds)" by (rule sum_list_nonneg) auto
  then have "0 \<le> mean (map (\<lambda>d. d\<^sup>2) ds)" by (simp add: mean_def)
  with assms show ?thesis by (simp add: np_std_def)
qed

text \<open>
  Claim C5. For the dictionary of time course \<open>n\<close> that the Trend Tracker returns,
  with \<open>g\<close> and \<open>c\<close> the fitted gradient and intercept: sigma is the standard
  deviation of the line-to-point distances of line 170, the reported distances are their
  absolute values over sigma, and when sigma is not zero the mean of the squared
  line-to-point distances divided by sigma squared is 1. The numbers are reals; in
  floating point the equation holds up to rounding.
\<close>

theorem baseline_sigma_normalises:
  assumes "tcs_baseline tcs_c time_values t = Inr sources_tcs"
    and "n < length tcs_c"
    and "polyfit1 time_values (tcs_c ! n) = Inr (g, c)"
    and "sigma (sources_tcs ! n) \<noteq> 0"
  shows "sigma (sources_tcs ! n)
           = np_std (line_point_distances (tcs_c ! n) (polyval1 g c time_values))
    \<and> distances (sources_tcs ! n)
           = map (\<lambda>d. np_abs (np_div (Fin d) (Fin (sigma (sources_tcs ! n)))))
               (line_point_distances (tcs_c ! n) (polyval1 g c time_values))
    \<and> mean (map (\<lambda>d. d\<^sup>2) (line_point_distances (tcs_c ! n) (polyval1 g c time_values)))
        / (sigma (sources_tcs ! n))\<^sup>2 = 1"
proof -
  from tcs_baseline_source(2)[OF assms(1,2)] assms(3) have
    s: "sigma (sources_tcs ! n)
          = np_std (line_point_distances (tcs_c ! n) (polyval1 g c time_values))"
    and d: "distances (sources_tcs ! n)
           = map (\<lambda>d. np_abs (np_div (Fin d) (Fin (sigma (sources_tcs ! n)))))
               (line_point_distances (tcs_c ! n) (polyval1 g c time_values))"
    by (auto elim!: tc_baseline_Inr)
  from np_std_mean_zero[OF mean_line_point_distances[OF assms(3)]] s have
    "(sigma (sources_tcs ! n))\<^sup>2
       = mean (map (\<lambda>d. d\<^sup>2) (line_point_distances (tcs_c ! n) (polyval1 g c time_values)))"
    by simp
  moreover from assms(4) have "(sigma (sources_tcs ! n))\<^sup>2 \<noteq> 0" by simp
  ultimately have
    "mean (map (\<lambda>d. d\<^sup>2) (line_point_distances (tcs_c ! n) (polyval1 g c time_values)))
        / (sigma (sources_tcs ! n))\<^sup>2 = 1"
    by simp
  with s d show ?thesis by blast
qed

theorem baseline_sigma_normalises_witness:
  "tcs_baseline [[1, -1, -1, 1]] [0, 1, 2, 3] 2 = Inr [ex_tc]
   \<and> polyfit1 [0, 1, 2, 3] ([[1, -1, -1, 1]] ! 0) = Inr (0, 0)
   \<and> sigma ([ex_tc] ! 0) = 1
   \<and> mean (map (\<lambda>d. d\<^sup>2) (line_point_distances [1, -1, -1, 1] (polyval1 0 0 [0, 1, 2, 3])))
       / 1\<^sup>2 = 1"
  using baseline_sigma_normalises[OF ex_baseline_run, of 0 0 0] ex_baseline_run ex_polyfit
  by (simp add: ex_tc_def)



lemma ex_residual_baseline: "tcs_baseline [[0, 0, 0]] [0, 1, 2] 2 = Inr [ex_residual_tc]"
proof -
  have p: "polyfit1 [0, 1, 2] [0, 0, 0] = Inr (0, 0)" by code_simp
  have l: "baseline_lines 2 (polyval1 0 0 [0, 1, 2]) [0..<3] (replicate 3 (replicate 3 NaN))
           = Inr (lines ex_residual_tc)" by code_simp
  have d: "line_point_distances [0, 0, 0] (polyval1 0 0 [0, 1, 2]) = [0, 0, 0]" by code_simp
  have s: "np_std [0, 0, 0] = 0" by (simp add: np_std_def mean_def)
  have tc: "tc_baseline 3 [0, 0, 0] [0, 1, 2] 2 = Inr ex_residual_tc"
    unfolding tc_baseline_def p sum.case prod.case Let_def l d s
    by (simp add: ex_residual_tc_def)
  have "shape0 [[0, 0, 0]] = 3" by (simp add: shape0_def)
  then show ?thesis
    unfolding tcs_baseline_def by (simp only: collect.simps tc sum.case)
qed



section \<open>Slices and slice assignment\<close>

lemma slice_index_nat: "a \<le> len \<Longrightarrow> slice_index len (int a) = a"
  by (simp add: slice_index_def)

lemma slice_index_le: "0 \<le> i \<Longrightarrow> slice_index len i \<le> len"
  by (simp add: slice_index_def)

lemma py_slice_nat:
  "b \<le> length xs \<Longrightarrow> a \<le> b \<Longrightarrow> py_slice (int a) (int b) xs = take (b - a) (drop a xs)"
  by (simp add: py_slice_def slice_index_nat)


text \<open>A matrix of \<open>L\<close> rows of length \<open>L\<close>.\<close>

lemma ncols_square:
  assumes "length M = L" "\<forall>r<L. length (M ! r) = L"
  shows "ncols M = L"
  using assms by (cases M) (auto simp: ncols_def)

lemma assign_col_slice_Inr:
  assumes "assign_col_slice i j col vals M = Inr M'"
  shows "length M' = length M"
    and "\<And>r. r < length M \<Longrightarrow> length (M' ! r) = length (M ! r)"
    and "\<And>r c. r < length M \<Longrightarrow>
           \<not> (slice_index (length M) i \<le> r \<and> r < slice_index (length M) j \<and> c = col) \<Longrightarrow>
           M' ! r ! c = M ! r ! c"
    and "\<And>r. r < length M \<Longrightarrow> col < length (M ! r) \<Longrightarrow>
           slice_index (length M) i \<le> r \<Longrightarrow> r < slice_index (length M) j \<Longrightarrow>
           M' ! r ! col \<in> set vals"
    and "\<And>r. r < length M \<Longrightarrow> col < length (M ! r) \<Longrightarrow>
           slice_index (length M) i \<le> r \<Longrightarrow> r < slice_index (length M) j \<Longrightarrow>
           length vals = slice_index (length M) j - slice_index (length M) i \<Longrightarrow>
           M' ! r ! col = vals ! (r - slice_index (length M) i)"
proof -
  let ?a = "slice_index (length M) i" and ?b = "slice_index (length M) j"
  from assms consider
    (exact) "length vals = ?b - ?a"
      "M' = map (\<lambda>r. if ?a \<le> r \<and> r < ?b then (M ! r)[col := vals ! (r - ?a)] else M ! r)
              [0..<length M]"
    | (broadcast) "length vals \<noteq> ?b - ?a" "length vals = 1"
      "M' = map (\<lambda>r. if ?a \<le> r \<and> r < ?b then (M ! r)[col := vals ! 0] else M ! r)
              [0..<length M]"
    unfolding assign_col_slice_def Let_def by (auto split: if_splits)
  note cases = this
  show "length M' = length M" by (rule cases) simp_all
  show "length (M' ! r) = length (M ! r)" if "r < length M" for r
    using that by (rule_tac cases) simp_all
  show "M' ! r ! c = M ! r ! c"
    if "r < length M" "\<not> (?a \<le> r \<and> r < ?b \<and> c = col)" for r c
    using that by (rule_tac cases) auto
  show "M' ! r ! col \<in> set vals"
    if "r < length M" "col < length (M ! r)" "?a \<le> r" "r < ?b" for r
  proof (rule cases)
    assume "length vals = ?b - ?a"
      "M' = map (\<lambda>r. if ?a \<le> r \<and> r < ?b then (M ! r)[col := vals ! (r - ?a)] else M ! r)
              [0..<length M]"
    with that show ?thesis by simp
  next
    assume "length vals \<noteq> ?b - ?a" "length vals = 1"
      "M' = map (\<lambda>r. if ?a \<le> r \<and> r < ?b then (M ! r)[col := vals ! 0] else M ! r)
              [0..<length M]"
    with that show ?thesis by simp
  qed
  show "M' ! r ! col = vals ! (r - ?a)"
    if "r < length M" "col < length (M ! r)" "?a \<le> r" "r < ?b" "length vals = ?b - ?a" for r
    using that by (rule_tac cases) simp_all
qed

lemma slice_index_le_length: "slice_index len i \<le> len"
  by (auto simp: slice_index_def nat_le_iff)

lemma length_py_slice:
  "length (py_slice i j xs) = slice_index (length xs) j - slice_index (length xs) i"
  using slice_index_le_length[of "length xs" j] by (simp add: py_slice_def Let_def)

lemma py_slice_nth:
  assumes "k < slice_index (length xs) j - slice_index (length xs) i"
  shows "py_slice i j xs ! k = xs ! (slice_index (length xs) i + k)"
  using assms slice_index_le_length[of "length xs" j] by (simp add: py_slice_def Let_def)

section \<open>The banded matrix of the baseline\<close>

text \<open>One step of the loop of lines 162 to 166 on an \<open>n\<close> by \<open>n\<close> matrix: the
  assignment goes through, and writes the line over the rows from
  \<open>max 0 (time_step - (t - 1))\<close> to \<open>time_step\<close> of column \<open>time_step\<close>.\<close>

lemma baseline_step:
  fixes t :: int
  assumes sq: "length M = n" "\<forall>r<n. length (M ! r) = n"
    and ly: "length ly = n" and ts: "ts < n"
  defines "start \<equiv> (if int ts - (t - 1) < 0 then 0 else int ts - (t - 1))"
  shows "\<exists>M'. assign_col_slice start (int ts + 1) ts
                 (map Fin (py_slice start (int ts + 1) ly)) M = Inr M'
          \<and> length M' = n \<and> (\<forall>r<n. length (M' ! r) = n)
          \<and> (\<forall>r<n. \<forall>c<n. M' ! r ! c =
                (if c = ts \<and> max 0 (int c - (t - 1)) \<le> int r \<and> r \<le> c
                 then Fin (ly ! r) else M ! r ! c))"
proof -
  let ?a = "slice_index n start" and ?b = "slice_index n (int ts + 1)"
  let ?vals = "map Fin (py_slice start (int ts + 1) ly)"
  have s0: "0 \<le> start" by (simp add: start_def)
  have b: "?b = ts + 1" using ts by (simp add: slice_index_def)
  have a: "?a = min n (nat start)" using s0 by (simp add: slice_index_def)
  have len: "length ?vals = ?b - ?a"
    using ly by (simp add: length_py_slice)
  have nc: "ncols M = n" using sq by (rule ncols_square)
  from len nc ts sq(1) obtain M' where
    ok: "assign_col_slice start (int ts + 1) ts ?vals M = Inr M'"
    by (auto simp: assign_col_slice_def Let_def)
  have win: "(?a \<le> r \<and> r < ?b) = (max 0 (int ts - (t - 1)) \<le> int r \<and> r \<le> ts)"
    if "r < n" for r
    using that a b by (auto simp: start_def)
  have ent: "M' ! r ! c =
                (if c = ts \<and> max 0 (int c - (t - 1)) \<le> int r \<and> r \<le> c
                 then Fin (ly ! r) else M ! r ! c)" if "r < n" "c < n" for r c
  proof (cases "c = ts \<and> ?a \<le> r \<and> r < ?b")
    case True
    with that sq have "M' ! r ! ts = ?vals ! (r - ?a)"
      using assign_col_slice_Inr(5)[OF ok, of r] len by simp
    also have "\<dots> = Fin (ly ! r)"
    proof -
      from True have k: "r - ?a < ?b - ?a" by auto
      with ly have "py_slice start (int ts + 1) ly ! (r - ?a) = ly ! (?a + (r - ?a))"
        using py_slice_nth[of "r - ?a" ly "int ts + 1" start] by simp
      with k True ly show ?thesis by (simp add: length_py_slice)
    qed
    finally show ?thesis using True win[OF that(1)] by simp
  next
    case False
    with that sq have "M' ! r ! c = M ! r ! c"
      using assign_col_slice_Inr(3)[OF ok, of r c] by auto
    with False win[OF that(1)] show ?thesis by auto
  qed
  from assign_col_slice_Inr(1,2)[OF ok] sq have "length M' = n" "\<forall>r<n. length (M' ! r) = n"
    by simp_all
  with ok ent show ?thesis by blast
qed

lemma baseline_lines_entries:
  fixes t :: int
  assumes "length M = n" "\<forall>r<n. length (M ! r) = n" "length ly = n" "\<forall>ts\<in>set tss. ts < n"
  shows "\<exists>M'. baseline_lines t ly tss M = Inr M'
          \<and> length M' = n \<and> (\<forall>r<n. length (M' ! r) = n)
          \<and> (\<forall>r<n. \<forall>c<n. M' ! r ! c =
                (if c \<in> set tss \<and> max 0 (int c - (t - 1)) \<le> int r \<and> r \<le> c
                 then Fin (ly ! r) else M ! r ! c))"
  using assms
proof (induction tss arbitrary: M)
  case Nil
  then show ?case by simp
next
  case (Cons ts tss)
  from Cons.prems have "ts < n" by simp
  from baseline_step[OF Cons.prems(1,2,3) this, of t] obtain M1 where
    m1: "assign_col_slice (if int ts - (t - 1) < 0 then 0 else int ts - (t - 1)) (int ts + 1) ts
           (map Fin (py_slice (if int ts - (t - 1) < 0 then 0 else int ts - (t - 1))
                       (int ts + 1) ly)) M = Inr M1"
       "length M1 = n" "\<forall>r<n. length (M1 ! r) = n"
       "\<forall>r<n. \<forall>c<n. M1 ! r ! c =
                (if c = ts \<and> max 0 (int c - (t - 1)) \<le> int r \<and> r \<le> c
                 then Fin (ly ! r) else M ! r ! c)"
    by blast
  from Cons.prems have "\<forall>ts\<in>set tss. ts < n" by simp
  from Cons.IH[OF m1(2,3) Cons.prems(3) this] obtain M' where
    m': "baseline_lines t ly tss M1 = Inr M'" "length M' = n" "\<forall>r<n. length (M' ! r) = n"
       "\<forall>r<n. \<forall>c<n. M' ! r ! c =
                (if c \<in> set tss \<and> max 0 (int c - (t - 1)) \<le> int r \<and> r \<le> c
                 then Fin (ly ! r) else M1 ! r ! c)"
    by blast
  have "baseline_lines t ly (ts # tss) M = Inr M'"
    using m1(1) m'(1) by (simp add: Let_def)
  moreover have "\<forall>r<n. \<forall>c<n. M' ! r ! c =
                (if c \<in> set (ts # tss) \<and> max 0 (int c - (t - 1)) \<le> int r \<and> r \<le> c
                 then Fin (ly ! r) else M ! r ! c)"
    using m1(4) m'(4) by auto
  ultimately show ?case using m'(2,3) by blast
qed

text \<open>The \<^verbatim>\<open>lines\<close> array of a dictionary of the Trend Tracker.\<close>

lemma tcs_baseline_lines:
  assumes "tcs_baseline tcs_c tv t = Inr sts" "n < length tcs_c"
  shows "length (lines (sts ! n)) = length tv"
    and "\<forall>r<length tv. length (lines (sts ! n) ! r) = length tv"
    and "\<forall>r<length tv. \<forall>c<length tv. lines (sts ! n) ! r ! c =
           (if max 0 (int c - (t - 1)) \<le> int r \<and> r \<le> c
            then Fin (gradient (sts ! n) * tv ! r
                      + (mean (tcs_c ! n) - gradient (sts ! n) * mean tv))
            else NaN)"
proof -
  from tcs_baseline_source(2)[OF assms] obtain g ic L where
    p: "polyfit1 tv (tcs_c ! n) = Inr (g, ic)" and
    l: "baseline_lines t (polyval1 g ic tv) [0..<length tv]
          (replicate (length tv) (replicate (length tv) NaN)) = Inr L" and
    st: "lines (sts ! n) = L" "gradient (sts ! n) = g"
    by (rule tc_baseline_Inr) simp
  have lp: "length (polyval1 g ic tv) = length tv" by (simp add: polyval1_def)
  from baseline_lines_entries[of "replicate (length tv) (replicate (length tv) NaN)"
      "length tv" "polyval1 g ic tv" "[0..<length tv]" t] l lp
  have L: "length L = length tv" "\<forall>r<length tv. length (L ! r) = length tv"
    "\<forall>r<length tv. \<forall>c<length tv. L ! r ! c =
       (if max 0 (int c - (t - 1)) \<le> int r \<and> r \<le> c
        then Fin (polyval1 g ic tv ! r) else NaN)"
    by auto
  from L(1,2) st show "length (lines (sts ! n)) = length tv"
    "\<forall>r<length tv. length (lines (sts ! n) ! r) = length tv" by simp_all
  from L(3) polyfit1_Inr(3)[OF p] st
  show "\<forall>r<length tv. \<forall>c<length tv. lines (sts ! n) ! r ! c =
           (if max 0 (int c - (t - 1)) \<le> int r \<and> r \<le> c
            then Fin (gradient (sts ! n) * tv ! r
                      + (mean (tcs_c ! n) - gradient (sts ! n) * mean tv))
            else NaN)"
    by (simp add: polyval1_def)
qed

section \<open>The rolling lines of the monitoring steps\<close>

lemma pad_lines_entries:
  assumes "pad_lines k M = Inr M'" "length M = L" "\<forall>r<L. length (M ! r) = L"
  shows "0 \<le> k" "length M' = L + nat k" "\<forall>r<L + nat k. length (M' ! r) = L + nat k"
    "\<forall>r<L + nat k. \<forall>c<L + nat k. M' ! r ! c = (if r < L \<and> c < L then M ! r ! c else NaN)"
proof -
  from assms(1) have k: "0 \<le> k" and
    M': "M' = map (\<lambda>r. r @ replicate (nat k) NaN) M
              @ replicate (nat k) (replicate (ncols M + nat k) NaN)"
    by (auto simp: pad_lines_def split: if_splits)
  have nc: "ncols M = L" using assms(2,3) by (rule ncols_square)
  show "0 \<le> k" by (rule k)
  show "length M' = L + nat k" using assms(2) by (simp add: M')
  show "\<forall>r<L + nat k. length (M' ! r) = L + nat k"
    using assms(2,3) by (auto simp: M' nc nth_append)
  show "\<forall>r<L + nat k. \<forall>c<L + nat k. M' ! r ! c = (if r < L \<and> c < L then M ! r ! c else NaN)"
    using assms(2,3) by (auto simp: M' nc nth_append)
qed




text \<open>Without the assumption that the time values reach \<open>n_ifg\<close>: when the line is
  not empty, none of its values is NaN.\<close>

lemma line_yvals_not_NaN:
  assumes "1 \<le> t" "t \<le> int n" "n < length (cumulative_tc st)"
    and "line_yvals t tv st n \<noteq> []"
  shows "NaN \<notin> set (line_yvals t tv st n)"
proof -
  from assms(1,2) have i: "int n - t = int (n - nat t)" "n - nat t < n" by auto
  let ?a = "n - nat t"
  have c: "py_slice (int n - t) (int n) (cumulative_tc st) \<noteq> []"
  proof -
    have "length (py_slice (int n - t) (int n) (cumulative_tc st)) = n - ?a"
      unfolding i(1) using assms(3) by (simp add: py_slice_nat)
    with i(2) show ?thesis by auto
  qed
  from assms(4) have "0 < length (py_slice (int n - t) (int n + 1) tv)"
    by (simp add: line_yvals_def)
  then have "slice_index (length tv) (int ?a) < slice_index (length tv) (int n + 1)"
    by (simp add: length_py_slice i(1))
  then have "?a < length tv" by (auto simp: slice_index_def split: if_splits)
  with i(2) have "0 < length (py_slice (int n - t) (int n) tv)"
    by (auto simp: length_py_slice i(1) slice_index_def)
  then have v: "py_slice (int n - t) (int n) tv \<noteq> []" by auto
  from c v obtain x where "line_y_intercept t tv st n = Fin x"
    by (simp add: line_y_intercept_def np_mean_def np_sub_def)
  then show ?thesis by (auto simp: line_yvals_def)
qed

lemma monitoring_loop_Cons:
  assumes "monitoring_loop t tv (n # ns) st = Inr st'"
  obtains L1 where
    "assign_col_slice (int n - t) (int n + 1) n (line_yvals t tv st n) (lines st) = Inr L1"
    "n < length (cumulative_tc st)" "line_yvals t tv st n \<noteq> []" "n < length (distances st)"
    "monitoring_loop t tv ns
       (st\<lparr>lines := L1,
           distances := (distances st)
             [n := np_div (np_abs (np_sub (Fin (cumulative_tc st ! n))
                                          (last (line_yvals t tv st n))))
                          (Fin (sigma st))]\<rparr>) = Inr st'"
  using assms by (auto split: sum.splits if_splits)

text \<open>The loop of lines 225 to 229 on a square \<^verbatim>\<open>lines\<close> array, for steps that
  have \<open>t\<close> steps before them: column \<open>c\<close> of a step is written with numbers over the
  rows \<open>c - t\<close> to \<open>c\<close>, and nothing else is written.\<close>

lemma monitoring_loop_lines:
  assumes "monitoring_loop t tv ns st = Inr st'"
    and "length (lines st) = L" "\<forall>r<L. length (lines st ! r) = L"
    and "1 \<le> t" "\<forall>n\<in>set ns. t \<le> int n \<and> n < L"
  shows "length (lines st') = L \<and> (\<forall>r<L. length (lines st' ! r) = L)
    \<and> (\<forall>r<L. \<forall>c<L.
          if c \<in> set ns \<and> int c - t \<le> int r \<and> r \<le> c
          then lines st' ! r ! c \<noteq> NaN
          else lines st' ! r ! c = lines st ! r ! c)"
  using assms
proof (induction ns arbitrary: st)
  case Nil
  then show ?case by simp
next
  case (Cons n ns)
  from Cons.prems(1) obtain L1 where
    a: "assign_col_slice (int n - t) (int n + 1) n (line_yvals t tv st n) (lines st) = Inr L1" and
    c: "n < length (cumulative_tc st)" "line_yvals t tv st n \<noteq> []" and
    l: "monitoring_loop t tv ns
       (st\<lparr>lines := L1,
           distances := (distances st)
             [n := np_div (np_abs (np_sub (Fin (cumulative_tc st ! n))
                                          (last (line_yvals t tv st n))))
                          (Fin (sigma st))]\<rparr>) = Inr st'"
    by (rule monitoring_loop_Cons)
  let ?st1 = "st\<lparr>lines := L1,
           distances := (distances st)
             [n := np_div (np_abs (np_sub (Fin (cumulative_tc st ! n))
                                          (last (line_yvals t tv st n))))
                          (Fin (sigma st))]\<rparr>"
  from Cons.prems(5) have n: "t \<le> int n" "n < L" by simp_all
  from n Cons.prems(4) have sa: "slice_index L (int n - t) = n - nat t"
    by (auto simp: slice_index_def)
  from n have sb: "slice_index L (int n + 1) = Suc n"
    by (auto simp: slice_index_def)
  have win: "(n - nat t \<le> r \<and> r < Suc n) = (int n - t \<le> int r \<and> r \<le> n)" for r
    using n Cons.prems(4) by auto
  from assign_col_slice_Inr(1,2)[OF a] Cons.prems(2,3) have
    sq1: "length L1 = L" "\<forall>r<L. length (L1 ! r) = L" by simp_all
  have nn: "NaN \<notin> set (line_yvals t tv st n)"
    using Cons.prems(4) n(1) c by (rule line_yvals_not_NaN)
  have e1: "if c = n \<and> int c - t \<le> int r \<and> r \<le> c
            then L1 ! r ! c \<noteq> NaN else L1 ! r ! c = lines st ! r ! c"
    if "r < L" "c < L" for r c
  proof (cases "c = n \<and> int n - t \<le> int r \<and> r \<le> n")
    case True
    with that n Cons.prems(2,3) have "L1 ! r ! n \<in> set (line_yvals t tv st n)"
      using assign_col_slice_Inr(4)[OF a, of r] win[of r] by (simp add: sa sb)
    with nn True show ?thesis by auto
  next
    case False
    with that Cons.prems(2) have "L1 ! r ! c = lines st ! r ! c"
      using assign_col_slice_Inr(3)[OF a, of r c] win[of r] by (auto simp: sa sb)
    with False show ?thesis by auto
  qed
  from Cons.prems(5) have "\<forall>n\<in>set ns. t \<le> int n \<and> n < L" by simp
  from Cons.IH[OF l _ _ Cons.prems(4) this] sq1 have
    ih: "length (lines st') = L" "\<forall>r<L. length (lines st' ! r) = L"
      "\<forall>r<L. \<forall>c<L.
          if c \<in> set ns \<and> int c - t \<le> int r \<and> r \<le> c
          then lines st' ! r ! c \<noteq> NaN
          else lines st' ! r ! c = L1 ! r ! c"
    by simp_all
  have e: "\<forall>r<L. \<forall>c<L.
          if c \<in> set (n # ns) \<and> int c - t \<le> int r \<and> r \<le> c
          then lines st' ! r ! c \<noteq> NaN
          else lines st' ! r ! c = lines st ! r ! c"
  proof (intro allI impI)
    fix r c assume that: "r < L" "c < L"
    from ih(3) that have i: "if c \<in> set ns \<and> int c - t \<le> int r \<and> r \<le> c
          then lines st' ! r ! c \<noteq> NaN
          else lines st' ! r ! c = L1 ! r ! c" by blast
    show "if c \<in> set (n # ns) \<and> int c - t \<le> int r \<and> r \<le> c
          then lines st' ! r ! c \<noteq> NaN
          else lines st' ! r ! c = lines st ! r ! c"
    proof (cases "c \<in> set ns \<and> int c - t \<le> int r \<and> r \<le> c")
      case True
      with i show ?thesis by simp
    next
      case False
      with i have eq: "lines st' ! r ! c = L1 ! r ! c" by simp
      show ?thesis
      proof (cases "c = n \<and> int c - t \<le> int r \<and> r \<le> c")
        case True
        with e1[OF that] eq show ?thesis by simp
      next
        case nothead: False
        with e1[OF that] have "L1 ! r ! c = lines st ! r ! c" by simp
        moreover from False nothead
        have "\<not> (c \<in> set (n # ns) \<and> int c - t \<le> int r \<and> r \<le> c)" by auto
        ultimately show ?thesis using eq by (simp only: if_False)
      qed
    qed
  qed
  from ih(1) ih(2) e show ?case by (intro conjI)
qed




section \<open>The window of the lines\<close>

text \<open>
  Claim C2, as the code has it. In a dictionary of the Trend Tracker, the entry of
  \<^verbatim>\<open>lines\<close> at row \<open>r\<close> and column \<open>c\<close> is a number exactly for
  \<open>max 0 (c - t_recalculate + 1) \<le> r \<le> c\<close>, and NaN elsewhere. In a dictionary
  that the Monitoring Extender returns for it, with \<open>1 \<le> t_recalculate\<close> and at least
  \<open>t_recalculate\<close> baseline steps, the columns of the baseline steps keep that window,
  and the column of a monitoring step \<open>c\<close> is a number exactly for
  \<open>c - t_recalculate \<le> r \<le> c\<close>: the line is drawn over the \<open>t_recalculate\<close> steps
  it was fitted to and the step it predicts, \<open>t_recalculate + 1\<close> rows.
\<close>

theorem lines_window:
  assumes "tcs_baseline tcs_c time_values_b t = Inr sources_tcs" and "n < length tcs_c"
  shows "(\<forall>r<length time_values_b. \<forall>c<length time_values_b.
            (lines (sources_tcs ! n) ! r ! c \<noteq> NaN)
            = (max 0 (int c - t + 1) \<le> int r \<and> r \<le> c))
    \<and> (\<forall>view_of tcs_new time_values residual res.
          tcs_monitoring view_of tcs_new sources_tcs time_values residual = Inr res \<longrightarrow>
          1 \<le> t \<longrightarrow> t \<le> int (length time_values_b) \<longrightarrow>
          (\<forall>r<length (lines (returned res ! n)). \<forall>c<length (lines (returned res ! n)).
             (lines (returned res ! n) ! r ! c \<noteq> NaN)
             = (if c < length time_values_b
                then max 0 (int c - t + 1) \<le> int r \<and> r \<le> c
                else int c - t \<le> int r \<and> r \<le> c)))"
proof (intro conjI allI impI)
  let ?N = "length time_values_b"
  note bl = tcs_baseline_lines[OF assms]
  have w: "int c - (t - 1) = int c - t + 1" for c by simp
  show base: "(lines (sources_tcs ! n) ! r ! c \<noteq> NaN)
        = (max 0 (int c - t + 1) \<le> int r \<and> r \<le> c)" if "r < ?N" "c < ?N" for r c
    using bl(3) that by (simp add: w)
  fix view_of tcs_new time_values residual res r c
  assume run: "tcs_monitoring view_of tcs_new sources_tcs time_values residual = Inr res"
    and t: "1 \<le> t" "t \<le> int ?N"
    and rc: "r < length (lines (returned res ! n))" "c < length (lines (returned res ! n))"
  from assms(2) have pos: "0 < length tcs_c" by (cases tcs_c) simp_all
  have len: "length sources_tcs = length tcs_c"
    using tcs_baseline_source(1)[OF assms] .
  from tcs_baseline_source(2)[OF assms(1) pos] have
    z: "length (cumulative_tc (sources_tcs ! 0)) = ?N" "t_recalculate (sources_tcs ! 0) = t"
  proof -
    from tcs_baseline_source(2)[OF assms(1) pos] obtain g ic where
      "polyfit1 time_values_b (tcs_c ! 0) = Inr (g, ic)"
      "cumulative_tc (sources_tcs ! 0) = tcs_c ! 0" "t_recalculate (sources_tcs ! 0) = t"
      by (rule tc_baseline_Inr) simp
    with polyfit1_Inr(2)[OF this(1)]
    show "length (cumulative_tc (sources_tcs ! 0)) = ?N" "t_recalculate (sources_tcs ! 0) = t"
      by simp_all
  qed
  let ?nm = "n_times_monitor tcs_new sources_tcs residual"
  from assms(2) len have nl: "n < length sources_tcs" by simp
  obtain cum ls ds where
    p: "pad_lines ?nm (lines (sources_tcs ! n)) = Inr ls" and
    l: "monitoring_loop t time_values [?N..<nat (int ?N + ?nm)]
          ((sources_tcs ! n)\<lparr>cumulative_tc := cum, lines := ls, distances := ds\<rparr>)
        = Inr (returned res ! n)"
    by (rule tcs_monitoring_source[OF run nl, unfolded z])
  let ?L = "?N + nat ?nm"
  note pl = pad_lines_entries[OF p bl(1,2)]
  from pl(1) have ns: "[?N..<nat (int ?N + ?nm)] = [?N..<?L]"
    by (simp add: nat_add_distrib)
  have "\<forall>k\<in>set [?N..<?L]. t \<le> int k \<and> k < ?L" using t by auto
  from monitoring_loop_lines[OF l[unfolded ns] _ _ t(1) this] pl(2,3) have
    ml: "length (lines (returned res ! n)) = ?L"
      "\<forall>r<?L. \<forall>c<?L.
          if c \<in> set [?N..<?L] \<and> int c - t \<le> int r \<and> r \<le> c
          then lines (returned res ! n) ! r ! c \<noteq> NaN
          else lines (returned res ! n) ! r ! c = ls ! r ! c"
    by simp_all
  from rc ml(1) have rc': "r < ?L" "c < ?L" by simp_all
  with ml(2) have e: "if c \<in> set [?N..<?L] \<and> int c - t \<le> int r \<and> r \<le> c
          then lines (returned res ! n) ! r ! c \<noteq> NaN
          else lines (returned res ! n) ! r ! c = ls ! r ! c" by blast
  from pl(4) rc' have lsrc: "ls ! r ! c = (if r < ?N \<and> c < ?N
          then lines (sources_tcs ! n) ! r ! c else NaN)" by blast
  show "(lines (returned res ! n) ! r ! c \<noteq> NaN)
             = (if c < ?N
                then max 0 (int c - t + 1) \<le> int r \<and> r \<le> c
                else int c - t \<le> int r \<and> r \<le> c)"
  proof (cases "c < ?N")
    case True
    with e have eq: "lines (returned res ! n) ! r ! c = ls ! r ! c" by simp
    show ?thesis
    proof (cases "r < ?N")
      case r: True
      with True eq lsrc base[OF r True] show ?thesis by simp
    next
      case r: False
      with True eq lsrc show ?thesis by simp
    qed
  next
    case False
    with rc' have m: "c \<in> set [?N..<?L]" by simp
    show ?thesis
    proof (cases "int c - t \<le> int r \<and> r \<le> c")
      case w: True
      with m e False show ?thesis by simp
    next
      case w: False
      with e have "lines (returned res ! n) ! r ! c = ls ! r ! c" by simp
      with lsrc False w show ?thesis by simp
    qed
  qed
qed

theorem lines_window_witness:
  "tcs_baseline [[1, -1, -1, 1]] [0, 1, 2, 3] 2 = Inr [ex_tc]
   \<and> tcs_monitoring Map.empty [[1, 2]] [ex_tc] [0, 1, 2, 3, 4, 5] False = Inr ex_monitored
   \<and> (1 :: int) \<le> 2 \<and> (2 :: int) \<le> int (length [0, 1, 2, 3 :: real])
   \<and> (lines ([ex_tc] ! 0) ! 1 ! 2 \<noteq> NaN) = (max 0 (int 2 - 2 + 1) \<le> int 1 \<and> (1 :: nat) \<le> 2)
   \<and> (lines (returned ex_monitored ! 0) ! 2 ! 4 \<noteq> NaN)
       = (int 4 - 2 \<le> int 2 \<and> (2 :: nat) \<le> 4)
   \<and> (lines (returned ex_monitored ! 0) ! 1 ! 4 \<noteq> NaN)
       = (int 4 - 2 \<le> int 1 \<and> (1 :: nat) \<le> 4)"
proof -
  note w = lines_window[OF ex_baseline_run, of 0]
  from w have b: "(lines ([ex_tc] ! 0) ! 1 ! 2 \<noteq> NaN)
      = (max 0 (int 2 - 2 + 1) \<le> int 1 \<and> (1 :: nat) \<le> 2)"
    by simp
  from w ex_monitoring_run have m: "\<forall>r<length (lines (returned ex_monitored ! 0)).
      \<forall>c<length (lines (returned ex_monitored ! 0)).
        (lines (returned ex_monitored ! 0) ! r ! c \<noteq> NaN)
        = (if c < length [0, 1, 2, 3 :: real]
           then max 0 (int c - 2 + 1) \<le> int r \<and> r \<le> c
           else int c - 2 \<le> int r \<and> r \<le> c)"
    by simp
  have len: "length (lines (returned ex_monitored ! 0)) = 6"
    by (simp add: ex_monitored_def)
  from m len have "(lines (returned ex_monitored ! 0) ! 2 ! 4 \<noteq> NaN)
       = (int 4 - 2 \<le> int 2 \<and> (2 :: nat) \<le> 4)"
    "(lines (returned ex_monitored ! 0) ! 1 ! 4 \<noteq> NaN)
       = (int 4 - 2 \<le> int 1 \<and> (1 :: nat) \<le> 4)"
    by simp_all
  with b ex_baseline_run ex_monitoring_run show ?thesis by simp
qed

text \<open>The state of the example after two monitoring steps, \<open>t_recalculate = 2\<close>: at
  time step 4 the claim's window is the rows 3 and 4, and row 2 of column 4 holds a
  number.\<close>

theorem lines_window_counterexample:
  "tcs_baseline [[1, -1, -1, 1]] [0, 1, 2, 3] 2 = Inr [ex_tc]
   \<and> tcs_monitoring Map.empty [[1, 2]] [ex_tc] [0, 1, 2, 3, 4, 5] False = Inr ex_monitored
   \<and> t_recalculate (returned ex_monitored ! 0) = 2
   \<and> lines (returned ex_monitored ! 0) ! 2 ! 4 = Fin 0
   \<and> \<not> (max 0 (4 - 2 + 1) \<le> (2 :: int))"
  using ex_baseline_run ex_monitoring_run by (simp add: ex_monitored_def)

section \<open>The distance of a monitoring step\<close>








section \<open>Arrays built from their entries\<close>

lemma sum_list_map_upt0: "sum_list (map f [0..<n]) = (\<Sum>i<n. f i)"
  by (simp add: interv_sum_list_conv_sum_set_nat atLeast0LessThan)

lemma dims_arr [simp]: "dim0 (arr n m f) = n" "dim1 (arr n m f) = m"
  by (simp_all add: arr_def)

lemma entry_arr [simp]: "i < n \<Longrightarrow> j < m \<Longrightarrow> entry (arr n m f) i j = f i j"
  by (simp add: arr_def entry_def)

lemma arr_cong:
  assumes "\<And>i j. i < n \<Longrightarrow> j < m \<Longrightarrow> f i j = f' i j"
  shows "arr n m f = arr n m f'"
  using assms by (simp add: arr_def)

lemma transpose_arr: "transpose_a (arr n m f) = arr m n (\<lambda>i j. f j i)"
  unfolding transpose_a_def dims_arr by (rule arr_cong) simp

lemma matmul_arr:
  "matmul (arr n m f) (arr m p f') = Inr (arr n p (\<lambda>i j. \<Sum>l<m. f i l * f' l j))"
proof -
  have "arr n p (\<lambda>i j. sum_list (map (\<lambda>l. entry (arr n m f) i l * entry (arr m p f') l j)
                                     [0..<m]))
        = arr n p (\<lambda>i j. \<Sum>l<m. f i l * f' l j)"
    by (rule arr_cong) (simp add: sum_list_map_upt0)
  then show ?thesis by (simp add: matmul_def)
qed

lemma sub_a_arr: "sub_a (arr n m f) (arr n m f') = Inr (arr n m (\<lambda>i j. f i j - f' i j))"
proof -
  have "arr n m (\<lambda>i j.
           entry (arr n m f) (if n = 1 then 0 else i) (if m = 1 then 0 else j)
           - entry (arr n m f') (if n = 1 then 0 else i) (if m = 1 then 0 else j))
        = arr n m (\<lambda>i j. f i j - f' i j)"
    by (rule arr_cong) auto
  then show ?thesis by (simp add: sub_a_def broadcast_dim_def)
qed

lemma sum_list_concat_rows: "sum_list (concat xss) = sum_list (map sum_list xss)"
  by (induction xss) simp_all

lemma sum_list_rows_arr:
  "sum_list (concat (rows (arr n m f))) = (\<Sum>i<n. \<Sum>j<m. f i j)"
  by (simp add: arr_def sum_list_concat_rows comp_def sum_list_map_upt0)

lemma ebind_Inr [simp]: "ebind (Inr v) f = f v"
  by (simp add: ebind_def)

lemma ebind_eq_Inr:
  "ebind x f = Inr y \<Longrightarrow> \<exists>v. x = Inr v \<and> f v = Inr y"
  by (cases x) (simp_all add: ebind_def)

section \<open>The Decomposer on an exact linear combination\<close>

text \<open>The normal equations give back the strengths: with \<open>H\<close> a left inverse of
  the Gram matrix of the sources, applying \<open>H\<close> times the sources to a combination of
  the sources with coefficients \<open>c\<close> returns \<open>c\<close>.\<close>

lemma normal_equations_recover:
  fixes S H :: "nat \<Rightarrow> nat \<Rightarrow> real" and c :: "nat \<Rightarrow> real"
  assumes "\<forall>i<k. \<forall>j<k. (\<Sum>l<k. H i l * (\<Sum>q<p. S l q * S j q)) = (if i = j then 1 else 0)"
    and "i < k"
  shows "(\<Sum>q<p. (\<Sum>l<k. H i l * S l q) * (\<Sum>j<k. c j * S j q)) = c i"
proof -
  let ?f = "\<lambda>q l j. (H i l * S l q) * (c j * S j q)"
  have "(\<Sum>q<p. (\<Sum>l<k. H i l * S l q) * (\<Sum>j<k. c j * S j q))
        = (\<Sum>q<p. \<Sum>l<k. \<Sum>j<k. ?f q l j)"
    by (simp only: sum_product)
  also have "\<dots> = (\<Sum>l<k. \<Sum>q<p. \<Sum>j<k. ?f q l j)"
    by (rule sum.swap)
  also have "\<dots> = (\<Sum>l<k. \<Sum>j<k. \<Sum>q<p. ?f q l j)"
    by (intro sum.cong refl sum.swap)
  also have "\<dots> = (\<Sum>j<k. \<Sum>l<k. \<Sum>q<p. ?f q l j)"
    by (rule sum.swap)
  also have "\<dots> = (\<Sum>j<k. c j * (\<Sum>l<k. H i l * (\<Sum>q<p. S l q * S j q)))"
  proof (intro sum.cong refl)
    fix j
    have "(\<Sum>q<p. ?f q l j) = c j * (H i l * (\<Sum>q<p. S l q * S j q))" for l
      unfolding sum_distrib_left by (intro sum.cong refl) (simp add: mult_ac)
    then show "(\<Sum>l<k. \<Sum>q<p. ?f q l j) = c j * (\<Sum>l<k. H i l * (\<Sum>q<p. S l q * S j q))"
      by (simp only: sum_distrib_left[symmetric])
  qed
  also have "\<dots> = (\<Sum>j<k. c j * (if i = j then 1 else 0))"
    using assms by (intro sum.cong refl) simp
  also have "\<dots> = (\<Sum>j<k. if j = i then c j else 0)"
    by (intro sum.cong refl) simp
  also have "\<dots> = c i"
    using assms(2) by (simp add: sum.delta)
  finally show ?thesis .
qed

lemma combination_sum_zero:
  fixes S M :: "nat \<Rightarrow> nat \<Rightarrow> real"
  assumes "\<forall>l<k. (\<Sum>q<p. S l q) = 0"
  shows "(\<Sum>i<n. \<Sum>q<p. \<Sum>l<k. M i l * S l q) = 0"
proof -
  have "(\<Sum>q<p. \<Sum>l<k. M i l * S l q) = 0" for i
  proof -
    have "(\<Sum>q<p. \<Sum>l<k. M i l * S l q) = (\<Sum>l<k. \<Sum>q<p. M i l * S l q)"
      by (rule sum.swap)
    also have "\<dots> = (\<Sum>l<k. M i l * (\<Sum>q<p. S l q))"
      by (simp only: sum_distrib_left)
    also have "\<dots> = (\<Sum>l<k. 0)"
      using assms by (intro sum.cong refl) simp
    finally show ?thesis by simp
  qed
  then show ?thesis by simp
qed

lemma np_cumsum_from_zero:
  "np_cumsum_from (Fin 0) (replicate n (Fin 0)) = replicate n (Fin 0)"
  by (induction n) simp_all

lemma np_cumsum_zero: "np_cumsum (replicate n (Fin 0)) = replicate n (Fin 0)"
  by (cases n) (simp_all add: np_cumsum_def np_cumsum_from_zero)

text \<open>
  Claim C6. The sources are \<open>k\<close> rows \<open>S\<close> over \<open>p \<ge> 1\<close> pixels, each with entries
  that sum to zero (mean-centred); the interferograms are \<open>n\<close> exact linear
  combinations of the sources, with strengths \<open>M\<close>; and \<^verbatim>\<open>np.linalg.inv\<close> returns an
  inverse \<open>H\<close> of the Gram matrix of the sources (the sources have full rank). Then the
  Decomposer returns, and its residual is zero at every time step, cumulative or not.
  The numbers are reals; in floating point the residual is zero up to rounding.
\<close>

theorem bss_exact_reconstruction:
  fixes S M H :: "nat \<Rightarrow> nat \<Rightarrow> real"
  assumes "sources = arr k p S"
    and "interferograms = arr n p (\<lambda>i q. \<Sum>l<k. M i l * S l q)"
    and "\<forall>l<k. (\<Sum>q<p. S l q) = 0"
    and "0 < p"
    and "linalg_inv (arr k k (\<lambda>i j. \<Sum>q<p. S i q * S j q)) = Inr (arr k k H)"
    and "\<forall>i<k. \<forall>j<k. (\<Sum>l<k. H i l * (\<Sum>q<p. S l q * S j q)) = (if i = j then 1 else 0)"
  shows "\<exists>out. bss_components_inversion linalg_inv sources interferograms cumulative = Inr out
               \<and> b_residual out = replicate n (Fin 0)"
proof -
  let ?I = "arr n p (\<lambda>i q. \<Sum>l<k. M i l * S l q)"
  let ?d = "arr p n (\<lambda>q i. \<Sum>l<k. M i l * S l q)"
  let ?g = "arr p k (\<lambda>q l. S l q)"
  have mu: "mean (concat (rows interferograms)) = 0"
    unfolding assms(2) mean_def sum_list_rows_arr
    using combination_sum_zero[OF assms(3), where n = n and M = M] by simp
  have centre: "mean_centre interferograms = ?I"
    unfolding mean_centre_def mu unfolding assms(2) dims_arr by (rule arr_cong) simp
  have d: "transpose_a ?I = ?d" by (rule transpose_arr)
  have g: "transpose_a sources = ?g" unfolding assms(1) by (rule transpose_arr)
  have gt: "transpose_a ?g = arr k p S" by (rule transpose_arr)
  have gtg: "matmul (arr k p S) ?g = Inr (arr k k (\<lambda>i j. \<Sum>q<p. S i q * S j q))"
    by (rule matmul_arr)
  have gig: "matmul (arr k k H) (arr k p S) = Inr (arr k p (\<lambda>i q. \<Sum>l<k. H i l * S l q))"
    by (rule matmul_arr)
  have m: "matmul (arr k p (\<lambda>i q. \<Sum>l<k. H i l * S l q)) ?d = Inr (arr k n (\<lambda>l i. M i l))"
  proof -
    have "arr k n (\<lambda>i j. \<Sum>q<p. (\<Sum>l<k. H i l * S l q) * (\<Sum>l<k. M j l * S l q))
          = arr k n (\<lambda>l i. M i l)"
      by (rule arr_cong) (rule normal_equations_recover[OF assms(6)])
    then show ?thesis by (simp add: matmul_arr)
  qed
  have d_hat: "matmul ?g (arr k n (\<lambda>l i. M i l)) = Inr ?d"
  proof -
    have "arr p n (\<lambda>q i. \<Sum>l<k. S l q * M i l) = ?d"
      by (rule arr_cong) (simp add: mult.commute)
    then show ?thesis by (simp add: matmul_arr)
  qed
  have d_resid: "sub_a ?d ?d = Inr (arr p n (\<lambda>q i. 0))"
    by (simp add: sub_a_arr)
  have res: "map (\<lambda>i. np_div
                 (Fin (sqrt (sum_list (map (\<lambda>q. (entry (arr p n (\<lambda>q i. 0)) q i)\<^sup>2) [0..<p]))))
                 (Fin (real p))) [0..<n]
             = replicate n (Fin 0)"
    using assms(4) by (auto intro!: nth_equalityI simp: sum_list_map_upt0)
  show ?thesis
    unfolding bss_components_inversion_def centre Let_def d g gt gtg ebind_Inr assms(5)
      gig m d_hat d_resid dims_arr res
    by (simp add: np_cumsum_zero)
qed

theorem bss_exact_reconstruction_witness:
  "inv_1x1 \<lparr> dim0 = 1, dim1 = 1, rows = [[2]] \<rparr>
     = Inr \<lparr> dim0 = 1, dim1 = 1, rows = [[1 / 2]] \<rparr>
   \<and> (\<exists>out. bss_components_inversion inv_1x1 ex_sources
               \<lparr> dim0 = 2, dim1 = 2, rows = [[1, -1], [2, -2]] \<rparr> True = Inr out
            \<and> b_residual out = replicate 2 (Fin 0))"
proof -
  let ?S = "\<lambda>(l :: nat) (q :: nat). if q = 0 then 1 else - 1 :: real"
  let ?M = "\<lambda>(i :: nat) (l :: nat). real (i + 1)"
  let ?H = "\<lambda>(i :: nat) (j :: nat). 1 / 2 :: real"
  have u: "[0..<2] = [0, Suc 0]" "{..<2 :: nat} = {0, Suc 0}" by (auto simp: upt_rec)
  have s: "ex_sources = arr 1 2 ?S" by (simp add: ex_sources_def arr_def u)
  have i: "\<lparr> dim0 = 2, dim1 = 2, rows = [[1, -1], [2, -2]] \<rparr>
           = arr 2 2 (\<lambda>i q. \<Sum>l<1. ?M i l * ?S l q)"
    by (simp add: arr_def u)
  have c: "\<forall>l<1. (\<Sum>q<2. ?S l q) = 0" by (simp add: u)
  have g: "arr 1 1 (\<lambda>i j. \<Sum>q<2. ?S i q * ?S j q) = \<lparr> dim0 = 1, dim1 = 1, rows = [[2]] \<rparr>"
    by (simp add: arr_def u)
  have h: "arr 1 1 ?H = \<lparr> dim0 = 1, dim1 = 1, rows = [[1 / 2]] \<rparr>"
    by (simp add: arr_def)
  have v: "inv_1x1 \<lparr> dim0 = 1, dim1 = 1, rows = [[2]] \<rparr>
     = Inr \<lparr> dim0 = 1, dim1 = 1, rows = [[1 / 2]] \<rparr>" by code_simp
  have e: "\<forall>i<1. \<forall>j<1. (\<Sum>l<1. ?H i l * (\<Sum>q<2. ?S l q * ?S j q)) = (if i = j then 1 else 0)"
    by (simp add: u)
  have iv: "inv_1x1 (arr 1 1 (\<lambda>i j. \<Sum>q<2. ?S i q * ?S j q)) = Inr (arr 1 1 ?H)"
    unfolding g h by (rule v)
  have p: "(0 :: nat) < 2" by simp
  note w = bss_exact_reconstruction[where S = ?S and M = ?M and H = ?H and k = 1 and p = 2
      and n = 2 and linalg_inv = inv_1x1 and cumulative = True and sources = ex_sources
      and interferograms = "\<lparr> dim0 = 2, dim1 = 2, rows = [[1, -1], [2, -2]] \<rparr>"]
  from w[OF s i c p iv e] v show ?thesis by (intro conjI)
qed

section \<open>The arrays behind the two residuals of the Orchestrator\<close>

lemma bss_components_inversion_Inr:
  assumes "bss_components_inversion linalg_inv sources interferograms cumulative = Inr out"
  shows "b_interferograms out = mean_centre interferograms"
  using assms unfolding bss_components_inversion_def Let_def
  by (auto dest!: ebind_eq_Inr)

text \<open>
  Claim C8. Every call of the Decomposer that returns leaves the caller's array
  mean-centred. In the Orchestrator with monitoring data, the baseline residual is
  computed by the Residual Pipeline from the mean-centred \<^verbatim>\<open>ifgs_baseline\<close>, while
  the residual over the full span is computed from \<^verbatim>\<open>ifgs_all\<close>, the stack of the
  baseline and monitoring interferograms as they were passed in, before any centring.
\<close>

theorem licsalert_residual_inputs:
  "(\<forall>cumulative out.
      bss_components_inversion linalg_inv sources ifgs_baseline cumulative = Inr out \<longrightarrow>
      b_interferograms out = mean_centre ifgs_baseline)
   \<and> (LiCSAlert linalg_inv sources time_values ifgs_baseline (Some ifgs_monitoring) t
        = Inr (sources_tcs_monitor, residual_tcs_monitor) \<longrightarrow>
      (\<exists>sources_tcs residual_tb residual_cb cb residual_tcs
          residual_t_bm residual_c_bm cbm mon.
         residual_for_pixels sources sources_tcs (mean_centre ifgs_baseline) None
           = Inr (residual_tb, residual_cb)
         \<and> finite_column residual_cb = Inr cb
         \<and> tcs_baseline [cb] (take (dim0 ifgs_baseline) time_values) t = Inr residual_tcs
         \<and> residual_for_pixels sources sources_tcs_monitor
               \<lparr> dim0 = dim0 ifgs_baseline + dim0 ifgs_monitoring, dim1 = dim1 ifgs_baseline,
                 rows = rows ifgs_baseline @ rows ifgs_monitoring \<rparr> None
           = Inr (residual_t_bm, residual_c_bm)
         \<and> finite_column residual_c_bm = Inr cbm
         \<and> tcs_monitoring Map.empty [cbm] residual_tcs time_values True = Inr mon
         \<and> residual_tcs_monitor = returned mon))"
proof (intro conjI allI impI)
  fix cumulative out
  assume "bss_components_inversion linalg_inv sources ifgs_baseline cumulative = Inr out"
  then show "b_interferograms out = mean_centre ifgs_baseline"
    by (rule bss_components_inversion_Inr)
next
  assume run: "LiCSAlert linalg_inv sources time_values ifgs_baseline (Some ifgs_monitoring) t
        = Inr (sources_tcs_monitor, residual_tcs_monitor)"
  let ?all = "\<lparr> dim0 = dim0 ifgs_baseline + dim0 ifgs_monitoring, dim1 = dim1 ifgs_baseline,
                 rows = rows ifgs_baseline @ rows ifgs_monitoring \<rparr>"
  have "\<exists>ifgs_all b sources_tcs residual_tb residual_cb cb residual_tcs
      residual_t_bm residual_c_bm cbm mon.
        vstack ifgs_baseline ifgs_monitoring = Inr ifgs_all
      \<and> bss_components_inversion linalg_inv sources ifgs_baseline True = Inr b
      \<and> residual_for_pixels sources sources_tcs (b_interferograms b) None
           = Inr (residual_tb, residual_cb)
      \<and> finite_column residual_cb = Inr cb
      \<and> tcs_baseline [cb] (take (dim0 ifgs_baseline) time_values) t = Inr residual_tcs
      \<and> residual_for_pixels sources sources_tcs_monitor ifgs_all None
           = Inr (residual_t_bm, residual_c_bm)
      \<and> finite_column residual_c_bm = Inr cbm
      \<and> tcs_monitoring Map.empty [cbm] residual_tcs time_values True = Inr mon
      \<and> residual_tcs_monitor = returned mon"
    using run unfolding LiCSAlert_def Let_def
    apply (simp only: option.case)
    apply (drule ebind_eq_Inr, elim exE conjE)+
    apply (simp only: prod.case split_paired_all)
    apply (drule ebind_eq_Inr, elim exE conjE)+
    apply (simp only: prod.case split_paired_all)
    apply ((drule ebind_eq_Inr, elim exE conjE)+)?
    apply (simp only: sum.inject prod.inject)
    apply (elim conjE)
    apply (intro exI conjI)
             apply (rule refl | assumption | erule sym)+
    done
  then obtain ifgs_all b sources_tcs residual_tb residual_cb cb residual_tcs
      residual_t_bm residual_c_bm cbm mon where
    v: "vstack ifgs_baseline ifgs_monitoring = Inr ifgs_all" and
    b: "bss_components_inversion linalg_inv sources ifgs_baseline True = Inr b" and
    rb: "residual_for_pixels sources sources_tcs (b_interferograms b) None
           = Inr (residual_tb, residual_cb)"
        "finite_column residual_cb = Inr cb"
        "tcs_baseline [cb] (take (dim0 ifgs_baseline) time_values) t = Inr residual_tcs" and
    rm: "residual_for_pixels sources sources_tcs_monitor ifgs_all None
           = Inr (residual_t_bm, residual_c_bm)"
        "finite_column residual_c_bm = Inr cbm"
        "tcs_monitoring Map.empty [cbm] residual_tcs time_values True = Inr mon"
        "residual_tcs_monitor = returned mon"
    by blast
  from v have all: "ifgs_all = ?all" by (auto simp: vstack_def split: if_splits)
  have c: "b_interferograms b = mean_centre ifgs_baseline"
    using b by (rule bss_components_inversion_Inr)
  show "\<exists>sources_tcs residual_tb residual_cb cb residual_tcs
          residual_t_bm residual_c_bm cbm mon.
         residual_for_pixels sources sources_tcs (mean_centre ifgs_baseline) None
           = Inr (residual_tb, residual_cb)
         \<and> finite_column residual_cb = Inr cb
         \<and> tcs_baseline [cb] (take (dim0 ifgs_baseline) time_values) t = Inr residual_tcs
         \<and> residual_for_pixels sources sources_tcs_monitor ?all None
           = Inr (residual_t_bm, residual_c_bm)
         \<and> finite_column residual_c_bm = Inr cbm
         \<and> tcs_monitoring Map.empty [cbm] residual_tcs time_values True = Inr mon
         \<and> residual_tcs_monitor = returned mon"
    using rb rm unfolding c all by blast
qed

lemma sqrt_residual_zero:
  "sqrt (sum_list (map (\<lambda>q. (entry \<lparr> dim0 = 2, dim1 = n, rows = [[0, 0, 0], [0, 0, 0]] \<rparr> q i)\<^sup>2)
                       [0..<2])) = 0" if "i < 3"
proof -
  have u: "[0..<2] = [0, Suc 0]" by (simp add: upt_rec)
  from that have "i = 0 \<or> i = 1 \<or> i = 2" by auto
  then show ?thesis unfolding u by (auto simp: entry_def)
qed

lemma ex_bss_baseline:
  "bss_components_inversion inv_1x1 ex_sources ex_ifgs_baseline True
   = Inr \<lparr> b_m = \<lparr> dim0 = 3, dim1 = 1, rows = [[1], [2], [3]] \<rparr>,
           b_residual = [Fin 0, Fin 0, Fin 0],
           b_interferograms = \<lparr> dim0 = 3, dim1 = 2, rows = [[1, -1], [1, -1], [1, -1]] \<rparr> \<rparr>"
proof -
  let ?B = "\<lparr> dim0 = 3, dim1 = 2, rows = [[1, -1], [1, -1], [1, -1 :: real]] \<rparr>"
  let ?D = "\<lparr> dim0 = 2, dim1 = 3, rows = [[1, 1, 1], [-1, -1, -1 :: real]] \<rparr>"
  let ?G = "\<lparr> dim0 = 2, dim1 = 1, rows = [[1], [-1 :: real]] \<rparr>"
  let ?M = "\<lparr> dim0 = 1, dim1 = 3, rows = [[1, 1, 1 :: real]] \<rparr>"
  have c: "mean_centre ex_ifgs_baseline = ?B" by code_simp
  have d: "transpose_a ?B = ?D" by code_simp
  have g: "transpose_a ex_sources = ?G" by code_simp
  have gt: "transpose_a ?G = ex_sources" by code_simp
  have gtg: "matmul ex_sources ?G = Inr \<lparr> dim0 = 1, dim1 = 1, rows = [[2]] \<rparr>" by code_simp
  have gi: "inv_1x1 \<lparr> dim0 = 1, dim1 = 1, rows = [[2]] \<rparr>
            = Inr \<lparr> dim0 = 1, dim1 = 1, rows = [[1 / 2]] \<rparr>" by code_simp
  have gig: "matmul \<lparr> dim0 = 1, dim1 = 1, rows = [[1 / 2]] \<rparr> ex_sources
             = Inr \<lparr> dim0 = 1, dim1 = 2, rows = [[1 / 2, - (1 / 2)]] \<rparr>" by code_simp
  have m: "matmul \<lparr> dim0 = 1, dim1 = 2, rows = [[1 / 2, - (1 / 2)]] \<rparr> ?D = Inr ?M"
    by code_simp
  have dh: "matmul ?G ?M = Inr ?D" by code_simp
  have dr: "sub_a ?D ?D = Inr \<lparr> dim0 = 2, dim1 = 3, rows = [[0, 0, 0], [0, 0, 0]] \<rparr>"
    by code_simp
  have cs: "cumsum0 (transpose_a ?M) = \<lparr> dim0 = 3, dim1 = 1, rows = [[1], [2], [3]] \<rparr>"
    by code_simp
  have u: "[0..<3] = [0, 1, 2]" by code_simp
  show ?thesis
    unfolding bss_components_inversion_def c Let_def d g gt gtg ebind_Inr gi gig m dh dr cs
    by (simp add: u sqrt_residual_zero np_cumsum_def)
qed

lemma ex_bss_monitoring:
  "bss_components_inversion inv_1x1 ex_sources ex_ifgs_monitoring True
   = Inr \<lparr> b_m = \<lparr> dim0 = 1, dim1 = 1, rows = [[1]] \<rparr>,
           b_residual = [Fin 0],
           b_interferograms = \<lparr> dim0 = 1, dim1 = 2, rows = [[1, -1]] \<rparr> \<rparr>"
proof -
  let ?B = "\<lparr> dim0 = 1, dim1 = 2, rows = [[1, -1 :: real]] \<rparr>"
  let ?D = "\<lparr> dim0 = 2, dim1 = 1, rows = [[1], [-1 :: real]] \<rparr>"
  let ?M = "\<lparr> dim0 = 1, dim1 = 1, rows = [[1 :: real]] \<rparr>"
  have c: "mean_centre ex_ifgs_monitoring = ?B" by code_simp
  have d: "transpose_a ?B = ?D" by code_simp
  have g: "transpose_a ex_sources = ?D" by code_simp
  have gt: "transpose_a ?D = ex_sources" by code_simp
  have gtg: "matmul ex_sources ?D = Inr \<lparr> dim0 = 1, dim1 = 1, rows = [[2]] \<rparr>" by code_simp
  have gi: "inv_1x1 \<lparr> dim0 = 1, dim1 = 1, rows = [[2]] \<rparr>
            = Inr \<lparr> dim0 = 1, dim1 = 1, rows = [[1 / 2]] \<rparr>" by code_simp
  have gig: "matmul \<lparr> dim0 = 1, dim1 = 1, rows = [[1 / 2]] \<rparr> ex_sources
             = Inr \<lparr> dim0 = 1, dim1 = 2, rows = [[1 / 2, - (1 / 2)]] \<rparr>" by code_simp
  have m: "matmul \<lparr> dim0 = 1, dim1 = 2, rows = [[1 / 2, - (1 / 2)]] \<rparr> ?D = Inr ?M"
    by code_simp
  have dh: "matmul ?D ?M = Inr ?D" by code_simp
  have dr: "sub_a ?D ?D = Inr \<lparr> dim0 = 2, dim1 = 1, rows = [[0], [0]] \<rparr>"
    by code_simp
  have cs: "cumsum0 (transpose_a ?M) = ?M" by code_simp
  have u: "[0..<2] = [0, Suc 0]" by (simp add: upt_rec)
  have r: "map (\<lambda>i. np_div
             (Fin (sqrt (sum_list (map (\<lambda>q. (entry \<lparr> dim0 = 2, dim1 = 1, rows = [[0], [0]] \<rparr>
                                                 q i)\<^sup>2)
                                       [0..<dim0 \<lparr> dim0 = 2, dim1 = 1,
                                                  rows = [[0], [0 :: real]] \<rparr>]))))
             (Fin (real (dim1 ?B)))) [0..<dim0 ?B] = [Fin 0]"
    by (simp add: u entry_def)
  show ?thesis
    unfolding bss_components_inversion_def c Let_def d g gt gtg ebind_Inr gi gig m dh dr cs r
    by (simp add: np_cumsum_def)
qed

lemma ex_strength_baseline:
  "tcs_baseline [[1, 2, 3]] [0, 1, 2] 2 = Inr [ex_strength_tc]"
proof -
  have p: "polyfit1 [0, 1, 2] [1, 2, 3] = Inr (1, 1)" by code_simp
  have l: "baseline_lines 2 (polyval1 1 1 [0, 1, 2]) [0..<3] (replicate 3 (replicate 3 NaN))
           = Inr (lines ex_strength_tc)" by code_simp
  have d: "line_point_distances [1, 2, 3] (polyval1 1 1 [0, 1, 2]) = [0, 0, 0]" by code_simp
  have s: "np_std [0, 0, 0] = 0" by (simp add: np_std_def mean_def)
  have tc: "tc_baseline 3 [1, 2, 3] [0, 1, 2] 2 = Inr ex_strength_tc"
    unfolding tc_baseline_def p sum.case prod.case Let_def l d s
    by (simp add: ex_strength_tc_def)
  have "shape0 [[1, 2, 3]] = 3" by (simp add: shape0_def)
  then show ?thesis
    unfolding tcs_baseline_def by (simp only: collect.simps tc sum.case)
qed

lemma rms_row_pair: "0 \<le> x \<Longrightarrow> rms_row 2 [x, x] = Fin x"
proof -
  assume "0 \<le> x"
  have "(x\<^sup>2 + x\<^sup>2) / 2 = x\<^sup>2" by simp
  with \<open>0 \<le> x\<close> show ?thesis by (simp add: rms_row_def)
qed

lemma ex_residual_centred:
  "residual_for_pixels ex_sources [ex_strength_tc]
     \<lparr> dim0 = 3, dim1 = 2, rows = [[1, -1], [1, -1], [1, -1]] \<rparr> None
   = Inr ([Fin 0, Fin 0, Fin 0], [Fin 0, Fin 0, Fin 0])"
proof -
  let ?T = "\<lparr> dim0 = 3, dim1 = 1, rows = [[1], [1], [1 :: real]] \<rparr>"
  let ?B = "\<lparr> dim0 = 3, dim1 = 2, rows = [[1, -1], [1, -1], [1, -1 :: real]] \<rparr>"
  let ?Z = "\<lparr> dim0 = 3, dim1 = 2, rows = [[0, 0], [0, 0], [0, 0 :: real]] \<rparr>"
  have t: "list_dict_to_r2 [ex_strength_tc] = Inr ?T" by code_simp
  have m: "matmul ?T ex_sources = Inr ?B" by code_simp
  have r: "sub_a ?B ?B = Inr ?Z" by code_simp
  have c: "cumsum0 ?Z = ?Z" by code_simp
  have n: "dim1 ex_sources = 2" by code_simp
  show ?thesis
    unfolding residual_for_pixels_def Let_def t ebind_Inr option.case m r c n
    using rms_row_pair[of 0] by simp
qed

lemma ex_residual_uncentred:
  "residual_for_pixels ex_sources [ex_strength_tc_monitor]
     \<lparr> dim0 = 4, dim1 = 2, rows = [[2, 0], [2, 0], [2, 0], [2, 0]] \<rparr> None
   = Inr ([Fin 1, Fin 1, Fin 1, Fin 1], [Fin 1, Fin 2, Fin 3, Fin 4])"
proof -
  let ?T = "\<lparr> dim0 = 4, dim1 = 1, rows = [[1], [1], [1], [1 :: real]] \<rparr>"
  let ?B = "\<lparr> dim0 = 4, dim1 = 2, rows = [[1, -1], [1, -1], [1, -1], [1, -1 :: real]] \<rparr>"
  let ?A = "\<lparr> dim0 = 4, dim1 = 2, rows = [[2, 0], [2, 0], [2, 0], [2, 0 :: real]] \<rparr>"
  let ?R = "\<lparr> dim0 = 4, dim1 = 2, rows = [[1, 1], [1, 1], [1, 1], [1, 1 :: real]] \<rparr>"
  let ?C = "\<lparr> dim0 = 4, dim1 = 2, rows = [[1, 1], [2, 2], [3, 3], [4, 4 :: real]] \<rparr>"
  have t: "list_dict_to_r2 [ex_strength_tc_monitor] = Inr ?T" by code_simp
  have m: "matmul ?T ex_sources = Inr ?B" by code_simp
  have r: "sub_a ?A ?B = Inr ?R" by code_simp
  have c: "cumsum0 ?R = ?C" by code_simp
  have n: "dim1 ex_sources = 2" by code_simp
  show ?thesis
    unfolding residual_for_pixels_def Let_def t ebind_Inr option.case m r c n
    using rms_row_pair[of 1] rms_row_pair[of 2] rms_row_pair[of 3] rms_row_pair[of 4]
    by simp
qed

lemma ex_strength_monitoring:
  "tcs_monitoring Map.empty [[1]] [ex_strength_tc] [0, 1, 2, 3] False
   = Inr \<lparr> returned = [ex_strength_tc_monitor], tcs_c_after = [[4]],
           sources_tcs_after = [ex_strength_tc] \<rparr>"
  by code_simp

lemma ex_residual_monitoring:
  "tcs_monitoring Map.empty [[1, 2, 3, 4]] [ex_residual_tc] [0, 1, 2, 3] True
   = Inr \<lparr> returned = [ex_residual_tc_monitor], tcs_c_after = [[1, 2, 3, 4]],
           sources_tcs_after = [ex_residual_tc] \<rparr>"
  by code_simp

lemma ex_licsalert_run:
  "LiCSAlert inv_1x1 ex_sources [0, 1, 2, 3] ex_ifgs_baseline (Some ex_ifgs_monitoring) 2
   = Inr ([ex_strength_tc_monitor], [ex_residual_tc_monitor])"
proof -
  have v: "vstack ex_ifgs_baseline ex_ifgs_monitoring
           = Inr \<lparr> dim0 = 4, dim1 = 2, rows = [[2, 0], [2, 0], [2, 0], [2, 0]] \<rparr>"
    by code_simp
  have c1: "columns \<lparr> dim0 = 3, dim1 = 1, rows = [[1], [2], [3]] \<rparr> = [[1, 2, 3]]"
    by code_simp
  have c2: "columns \<lparr> dim0 = 1, dim1 = 1, rows = [[1]] \<rparr> = [[1]]" by code_simp
  have tk: "take (dim0 ex_ifgs_baseline) [0, 1, 2, 3 :: real] = [0, 1, 2]" by code_simp
  have f1: "finite_column [Fin 0, Fin 0, Fin 0] = Inr [0, 0, 0]" by code_simp
  have f2: "finite_column [Fin 1, Fin 2, Fin 3, Fin 4] = Inr [1, 2, 3, 4]" by code_simp
  show ?thesis
    unfolding LiCSAlert_def Let_def option.case v ebind_Inr ex_bss_baseline bss_result.simps
      c1 tk ex_strength_baseline ex_residual_centred prod.case f1 ex_residual_baseline
      ex_bss_monitoring c2 ex_strength_monitoring mon_result.simps ex_residual_uncentred f2
      ex_residual_monitoring
    by (rule refl)
qed

theorem licsalert_residual_inputs_witness:
  "LiCSAlert inv_1x1 ex_sources [0, 1, 2, 3] ex_ifgs_baseline (Some ex_ifgs_monitoring) 2
     = Inr ([ex_strength_tc_monitor], [ex_residual_tc_monitor])
   \<and> mean_centre ex_ifgs_baseline
       = \<lparr> dim0 = 3, dim1 = 2, rows = [[1, -1], [1, -1], [1, -1]] \<rparr>
   \<and> (\<exists>sources_tcs residual_tb residual_cb cb residual_tcs
          residual_t_bm residual_c_bm cbm mon.
         residual_for_pixels ex_sources sources_tcs (mean_centre ex_ifgs_baseline) None
           = Inr (residual_tb, residual_cb)
         \<and> finite_column residual_cb = Inr cb
         \<and> tcs_baseline [cb] (take (dim0 ex_ifgs_baseline) [0, 1, 2, 3]) 2 = Inr residual_tcs
         \<and> residual_for_pixels ex_sources [ex_strength_tc_monitor]
               \<lparr> dim0 = dim0 ex_ifgs_baseline + dim0 ex_ifgs_monitoring,
                 dim1 = dim1 ex_ifgs_baseline,
                 rows = rows ex_ifgs_baseline @ rows ex_ifgs_monitoring \<rparr> None
           = Inr (residual_t_bm, residual_c_bm)
         \<and> finite_column residual_c_bm = Inr cbm
         \<and> tcs_monitoring Map.empty [cbm] residual_tcs [0, 1, 2, 3] True = Inr mon
         \<and> [ex_residual_tc_monitor] = returned mon)"
proof -
  note w = licsalert_residual_inputs[where linalg_inv = inv_1x1 and sources = ex_sources
      and ifgs_baseline = ex_ifgs_baseline and ifgs_monitoring = ex_ifgs_monitoring
      and time_values = "[0, 1, 2, 3]" and t = 2
      and sources_tcs_monitor = "[ex_strength_tc_monitor]"
      and residual_tcs_monitor = "[ex_residual_tc_monitor]"]
  from w ex_bss_baseline have "mean_centre ex_ifgs_baseline
       = \<lparr> dim0 = 3, dim1 = 2, rows = [[1, -1], [1, -1], [1, -1]] \<rparr>"
    by (metis bss_result.select_convs(3))
  moreover from w ex_licsalert_run have "\<exists>sources_tcs residual_tb residual_cb cb residual_tcs
          residual_t_bm residual_c_bm cbm mon.
         residual_for_pixels ex_sources sources_tcs (mean_centre ex_ifgs_baseline) None
           = Inr (residual_tb, residual_cb)
         \<and> finite_column residual_cb = Inr cb
         \<and> tcs_baseline [cb] (take (dim0 ex_ifgs_baseline) [0, 1, 2, 3]) 2 = Inr residual_tcs
         \<and> residual_for_pixels ex_sources [ex_strength_tc_monitor]
               \<lparr> dim0 = dim0 ex_ifgs_baseline + dim0 ex_ifgs_monitoring,
                 dim1 = dim1 ex_ifgs_baseline,
                 rows = rows ex_ifgs_baseline @ rows ex_ifgs_monitoring \<rparr> None
           = Inr (residual_t_bm, residual_c_bm)
         \<and> finite_column residual_c_bm = Inr cbm
         \<and> tcs_monitoring Map.empty [cbm] residual_tcs [0, 1, 2, 3] True = Inr mon
         \<and> [ex_residual_tc_monitor] = returned mon"
    by (rule conjunct2[THEN mp])
  ultimately show ?thesis using ex_licsalert_run by (intro conjI)
qed

end
